theory Spec2Isabelle
  imports Main "HOL-Library.Word" "HOL-Library.Signed_Division"
begin

section \<open>Values of the interpreter\<close>

text \<open>
  The interpreter of \<^verbatim>\<open>CForth.cpp\<close> keeps all of its state in file-level globals and
  passes tokens around as \<^verbatim>\<open>std::shared_ptr<Token>\<close>. The embedding keeps both: the
  globals are the fields of the record \<open>machine\<close>, and a shared pointer is an address
  into an explicit store of token objects, so that two stack slots holding the same pointer
  are two occurrences of the same address.

  C++ \<^verbatim>\<open>int\<close> is a 32-bit word read through \<open>sint\<close>, \<^verbatim>\<open>long\<close> a 64-bit word.
  What the platform decides is not interpreted: the operations on \<^verbatim>\<open>double\<close> that
  the embedded functions call, over an arbitrary carrier \<open>'d\<close>, and the machine address
  of an object (\<^verbatim>\<open>long(this)\<close>) are the fields of a record \<open>platform\<close> that these
  functions take as their first argument.
\<close>

type_synonym int32 = "32 word"
type_synonym long = "64 word"
type_synonym addr = nat

record 'd platform =
  address_of :: "addr \<Rightarrow> long"
  int_of_double :: "'d \<Rightarrow> int32"
  double_of_int :: "int32 \<Rightarrow> 'd"
  d_plus :: "'d \<Rightarrow> 'd \<Rightarrow> 'd"
  d_minus :: "'d \<Rightarrow> 'd \<Rightarrow> 'd"
  d_times :: "'d \<Rightarrow> 'd \<Rightarrow> 'd"
  d_divide :: "'d \<Rightarrow> 'd \<Rightarrow> 'd"
  d_less :: "'d \<Rightarrow> 'd \<Rightarrow> bool"
  d_eq :: "'d \<Rightarrow> 'd \<Rightarrow> bool"
  d_atof :: "string \<Rightarrow> 'd"

text \<open>\<^verbatim>\<open>class Number\<close>: the tag \<^verbatim>\<open>t_\<close> with the union \<^verbatim>\<open>v_\<close>.\<close>

datatype 'd Number = BOOLEAN_TYPE bool | INTEGER_TYPE int32 | REAL_TYPE 'd

fun Number_isBoolean :: "'d Number \<Rightarrow> bool" where
  "Number_isBoolean (BOOLEAN_TYPE b) = True"
| "Number_isBoolean _ = False"

fun Number_isInteger :: "'d Number \<Rightarrow> bool" where
  "Number_isInteger (INTEGER_TYPE i) = True"
| "Number_isInteger _ = False"

fun Number_isReal :: "'d Number \<Rightarrow> bool" where
  "Number_isReal (REAL_TYPE r) = True"
| "Number_isReal _ = False"

text \<open>\<^verbatim>\<open>integer()\<close> and \<^verbatim>\<open>real()\<close>; a Boolean stores 0 or 1 in \<^verbatim>\<open>v_.i\<close>.\<close>

fun Number_integer :: "'d platform \<Rightarrow> 'd Number \<Rightarrow> int32" where
  "Number_integer pf (BOOLEAN_TYPE b) = (if b then 1 else 0)"
| "Number_integer pf (INTEGER_TYPE i) = i"
| "Number_integer pf (REAL_TYPE r) = int_of_double pf r"

fun Number_real :: "'d platform \<Rightarrow> 'd Number \<Rightarrow> 'd" where
  "Number_real pf (BOOLEAN_TYPE b) = double_of_int pf (if b then 1 else 0)"
| "Number_real pf (INTEGER_TYPE i) = double_of_int pf i"
| "Number_real pf (REAL_TYPE r) = r"

text \<open>\<^verbatim>\<open>Number::cmp\<close> returns 1, -1 or 0.\<close>

definition Number_cmp :: "'d platform \<Rightarrow> 'd Number \<Rightarrow> 'd Number \<Rightarrow> int" where
  "Number_cmp pf n1 n2 =
     (if \<not> Number_isReal n1 \<and> \<not> Number_isReal n2 then
        (if sint (Number_integer pf n1) > sint (Number_integer pf n2) then 1
         else if sint (Number_integer pf n1) < sint (Number_integer pf n2) then - 1
         else 0)
      else
        (if d_less pf (Number_real pf n2) (Number_real pf n1) then 1
         else if d_less pf (Number_real pf n1) (Number_real pf n2) then - 1
         else 0))"

text \<open>\<^verbatim>\<open>Number::inc\<close>: the 32-bit addition wraps.\<close>

definition Number_inc :: "'d platform \<Rightarrow> 'd Number \<Rightarrow> 'd Number \<Rightarrow> 'd Number" where
  "Number_inc pf n i =
     (if \<not> Number_isReal n \<and> \<not> Number_isReal i
      then INTEGER_TYPE (Number_integer pf n + Number_integer pf i)
      else REAL_TYPE (d_plus pf (Number_real pf n) (Number_real pf i)))"

text \<open>\<^verbatim>\<open>Number::plus\<close>, that is \<^verbatim>\<open>doOp\<close> with \<^verbatim>\<open>Plus\<close>.\<close>

definition Number_plus :: "'d platform \<Rightarrow> 'd Number \<Rightarrow> 'd Number \<Rightarrow> 'd Number" where
  "Number_plus pf n1 n2 =
     (if \<not> Number_isReal n1 \<and> \<not> Number_isReal n2
      then INTEGER_TYPE (Number_integer pf n1 + Number_integer pf n2)
      else REAL_TYPE (d_plus pf (Number_real pf n1) (Number_real pf n2)))"

text \<open>
  The ways in which the process stops inside a call: a failed \<^verbatim>\<open>assert\<close>, a null
  pointer that is dereferenced, an index outside a vector, and a division of two
  \<^verbatim>\<open>int\<close> whose quotient is no \<^verbatim>\<open>int\<close>.
\<close>

datatype halt = AssertFailed | NullPointer | OutOfRange | DivideOverflow

text \<open>
  \<^verbatim>\<open>Number::mod\<close>, that is \<^verbatim>\<open>doOp\<close> with \<^verbatim>\<open>Mod\<close>. \<^verbatim>\<open>Mod::exec\<close> starts with
  \<^verbatim>\<open>assert(b != T(0))\<close>; a failed assertion ends the process. The quotient
  \<^verbatim>\<open>a/b\<close> and the remainder \<^verbatim>\<open>a%b\<close> of two \<^verbatim>\<open>int\<close> truncate towards zero. The
  quotient of the least \<^verbatim>\<open>int\<close> and -1 is no \<^verbatim>\<open>int\<close>: that division is undefined,
  and the process stops in it.
\<close>

definition int_divide :: "int32 \<Rightarrow> int32 \<Rightarrow> int32" where
  "int_divide a b = word_of_int (sint a sdiv sint b)"

definition int_modulo :: "int32 \<Rightarrow> int32 \<Rightarrow> int32" where
  "int_modulo a b = word_of_int (sint a smod sint b)"

definition Mod_exec_int :: "int32 \<Rightarrow> int32 \<Rightarrow> halt + int32" where
  "Mod_exec_int a b =
     (if b = 0 then Inl AssertFailed
      else if sint a = - (2 ^ 31) \<and> sint b = - 1 then Inl DivideOverflow
      else (let factor = int_divide a b in Inr (a - b * factor)))"

definition Mod_exec_double :: "'d platform \<Rightarrow> 'd \<Rightarrow> 'd \<Rightarrow> halt + 'd" where
  "Mod_exec_double pf a b =
     (if d_eq pf b (double_of_int pf 0) then Inl AssertFailed
      else (let factor = int_of_double pf (d_divide pf a b)
            in Inr (d_minus pf a (d_times pf b (double_of_int pf factor)))))"

definition Number_mod :: "'d platform \<Rightarrow> 'd Number \<Rightarrow> 'd Number \<Rightarrow> halt + 'd Number" where
  "Number_mod pf n1 n2 =
     (if \<not> Number_isReal n1 \<and> \<not> Number_isReal n2
      then map_sum id INTEGER_TYPE (Mod_exec_int (Number_integer pf n1) (Number_integer pf n2))
      else map_sum id REAL_TYPE (Mod_exec_double pf (Number_real pf n1) (Number_real pf n2)))"


section \<open>Tokens, the store and the globals\<close>

text \<open>
  \<^verbatim>\<open>enum BuiltinType\<close> of \<^verbatim>\<open>class Builtin\<close>, one datatype for each group that
  the comments of the enumeration name.
\<close>

datatype stack_builtin =
    DUP_BUILTIN | DROP_BUILTIN | SWAP_BUILTIN | OVER_BUILTIN | ROT_BUILTIN | PICK_BUILTIN
  | ROLL_BUILTIN | QDUP_BUILTIN | DEPTH_BUILTIN | POP_RET_BUILTIN | PUSH_RET_BUILTIN
  | COPY_RET_BUILTIN

datatype comparison_builtin =
    LESS_BUILTIN | EQUAL_BUILTIN | GREATER_BUILTIN | ULESS_BUILTIN | NOT_BUILTIN

datatype arithmetic_builtin =
    PLUS_BUILTIN | MINUS_BUILTIN | TIMES_BUILTIN | DIVIDE_BUILTIN | MOD_BUILTIN | DMOD_BUILTIN
  | PLUS1_BUILTIN | PLUS2_BUILTIN | MULDIV_BUILTIN | MAX_BUILTIN | MIN_BUILTIN | ABS_BUILTIN
  | NEGATE_BUILTIN | AND_BUILTIN | OR_BUILTIN | XOR_BUILTIN

datatype memory_builtin =
    FETCH_BUILTIN | STORE_BUILTIN | PFETCH_BUILTIN | ADDSTORE_BUILTIN | MOVE_BUILTIN
  | FILL_BUILTIN

datatype control_builtin =
    DO_BUILTIN | LOOP_BUILTIN | ILOOP_BUILTIN | I_BUILTIN | J_BUILTIN | LEAVE_BUILTIN
  | IF_BUILTIN | ELSE_BUILTIN | THEN_BUILTIN | BEGIN_BUILTIN | UNTIL_BUILTIN | WHILE_BUILTIN
  | REPEAT_BUILTIN

datatype io_builtin =
    EMIT_BUILTIN | PRINTTO_BUILTIN | TYPE_BUILTIN | COUNT_BUILTIN | TRAILING_BUILTIN
  | KEY_BUILTIN | EXPECT_BUILTIN | QUERY_BUILTIN | WORD_BUILTIN
  | DECIMAL_BUILTIN | PRINT_BUILTIN | PSTACK_BUILTIN
  | LOAD_BUILTIN

datatype defining_builtin =
    DEFINE_BUILTIN | VARIABLE_BUILTIN | CONSTANT_BUILTIN | CREATE_BUILTIN | COMMA_BUILTIN
  | DOES_BUILTIN | FORGET_BUILTIN
  | ALLOT_BUILTIN
  | COMMENT_BUILTIN | HERE_BUILTIN | ABORT_BUILTIN | QUIT_BUILTIN | DEBUG_BUILTIN

datatype BuiltinType =
    Stack stack_builtin
  | Comparison comparison_builtin
  | Arithmetic arithmetic_builtin
  | Memory memory_builtin
  | Control control_builtin
  | InputOutput io_builtin
  | Defining defining_builtin

text \<open>
  The value a built-in made by \<^verbatim>\<open>MOD_BUILTIN_DEF\<close> owns: \<^verbatim>\<open>DoTokens\<close>,
  \<^verbatim>\<open>IfTokens\<close>, \<^verbatim>\<open>BeginTokens\<close>, a string, or a token array. A \<^verbatim>\<open>TokenArray\<close>
  is a vector of shared pointers, here a list of addresses.
\<close>

datatype modifier =
    NoValue
  | DoTokens (do_tokens: "addr list") (incToken: bool) (leave: bool)
  | IfTokens (ifTokens: "addr list") (elseTokens: "addr list")
  | BeginTokens "addr list" "addr list" bool bool bool
  | Text string
  | TokenArray "addr list"

text \<open>
  The classes derived from \<^verbatim>\<open>Token\<close>. A cell of a variable is a shared pointer that
  may be null (\<^verbatim>\<open>indValue\<close> returns \<^verbatim>\<open>TokenP()\<close> out of range), hence an
  \<open>addr option\<close>.
\<close>

datatype 'd Token =
    BooleanToken bool
  | NumberToken (number: "'d Number")
  | Builtin (builtinType: BuiltinType) (getValue: modifier)
  | Variable (var_name: string) (var_values: "addr option list") (var_ind: int32)
      (var_constant: bool) (var_execTokens: "addr list")
  | VariableRef (ref_var: addr) (ref_ind: int32)
  | Procedure string "addr list"

fun isBoolean :: "'d Token \<Rightarrow> bool" where
  "isBoolean (BooleanToken b) = True"
| "isBoolean _ = False"

fun isNumber :: "'d Token \<Rightarrow> bool" where
  "isNumber (NumberToken n) = True"
| "isNumber _ = False"

fun isBuiltin :: "'d Token \<Rightarrow> bool" where
  "isBuiltin (Builtin t v) = True"
| "isBuiltin _ = False"

fun isVarBase :: "'d Token \<Rightarrow> bool" where
  "isVarBase (Variable n vs i c e) = True"
| "isVarBase (VariableRef v i) = True"
| "isVarBase _ = False"

fun isProcedure :: "'d Token \<Rightarrow> bool" where
  "isProcedure (Procedure n ts) = True"
| "isProcedure _ = False"

text \<open>\<^verbatim>\<open>VarBase::isConstant\<close> is overridden by \<^verbatim>\<open>Variable\<close> only.\<close>

fun isConstant :: "'d Token \<Rightarrow> bool" where
  "isConstant (Variable n vs i c e) = c"
| "isConstant _ = False"

text \<open>
  \<^verbatim>\<open>Token::isVariable\<close> asks for the class \<^verbatim>\<open>Variable\<close>; \<^verbatim>\<open>Token::isVarRef\<close>
  holds of every \<^verbatim>\<open>VarBase\<close> that is not constant, a \<^verbatim>\<open>Variable\<close> included.
\<close>

fun isVariable :: "'d Token \<Rightarrow> bool" where
  "isVariable (Variable n vs i c e) = True"
| "isVariable _ = False"

definition isVarRef :: "'d Token \<Rightarrow> bool" where
  "isVarRef t = (if \<not> isVarBase t then False else \<not> isConstant t)"

text \<open>
  \<^verbatim>\<open>Token::isImmutable\<close> is virtual, returns \<^verbatim>\<open>true\<close> in \<^verbatim>\<open>Token\<close>, and no
  derived class overrides it. \<^verbatim>\<open>isExecutable\<close> is overridden by \<^verbatim>\<open>Builtin\<close> and
  \<^verbatim>\<open>Procedure\<close>; \<^verbatim>\<open>isBlock\<close> by the DO, IF and BEGIN built-ins.
\<close>

definition isImmutable :: "'d Token \<Rightarrow> bool" where
  "isImmutable t = True"

fun isExecutable :: "'d Token \<Rightarrow> bool" where
  "isExecutable (Builtin t v) = True"
| "isExecutable (Procedure n ts) = True"
| "isExecutable _ = False"

fun isBlock :: "'d Token \<Rightarrow> bool" where
  "isBlock (Builtin t v) =
     (t = Control DO_BUILTIN \<or> t = Control IF_BUILTIN \<or> t = Control BEGIN_BUILTIN)"
| "isBlock _ = False"

text \<open>\<^verbatim>\<open>class State\<close> and \<^verbatim>\<open>class Line\<close> (the text and the read position).\<close>

datatype State = State (valid: bool) (msg: string)

record Line =
  str :: string
  pos :: nat

text \<open>
  \<^verbatim>\<open>class File\<close>: whether \<^verbatim>\<open>fp_\<close> is open, the characters not read yet and the
  end-of-file indicator of the stream.
\<close>

record File =
  fp_open :: bool
  fp_rest :: string
  fp_eof :: bool

text \<open>
  Isabelle names cannot end in an underscore, so a member or global \<^verbatim>\<open>x_\<close> of the
  source is \<open>x\<close> here (\<^verbatim>\<open>file_\<close> is \<open>input_file\<close>, the members of a variable carry the
  prefix \<open>var\<close>). Standard output is kept as the sequence of the operands of \<^verbatim>\<open><<\<close>: a text, an
  \<^verbatim>\<open>int\<close>, or a token whose \<^verbatim>\<open>print\<close> was called (with the value of
  \<^verbatim>\<open>ignore_base_\<close> at that moment). What \<^verbatim>\<open>print\<close> writes for a token is not
  interpreted.
\<close>

datatype out_item = Chars string | IntOut int32 | TokenOut addr bool

text \<open>
  The globals of \<^verbatim>\<open>CForth.cpp\<close>, the static \<^verbatim>\<open>State::lastError_\<close>, the store of
  token objects with the next free address, and standard output. The vectors push and pop
  at the back, so the top of a stack is the last element of its list.
\<close>

record 'd machine =
  heap :: "addr \<Rightarrow> 'd Token"
  brk :: addr
  debug :: bool
  ignore_base :: bool
  input_file :: File
  lines :: "Line list"
  line :: Line
  tokens :: "addr list"
  execTokens :: "addr list"
  retTokens :: "addr list"
  variables :: "string \<Rightarrow> addr list option"
  procedures :: "string \<Rightarrow> addr list option"
  currentVar :: "addr option"
  lastError :: State
  out :: "out_item list"

text \<open>
  What a call does: it returns \<^verbatim>\<open>State::success()\<close> with its results (\<open>Ok\<close>), it
  returns a failed \<^verbatim>\<open>State\<close> (\<open>Err\<close>), or the process stops inside it (\<open>Halt\<close>). Every
  failed \<^verbatim>\<open>State\<close> the code returns is either \<^verbatim>\<open>State::error(msg)\<close>, which stores
  the state in \<^verbatim>\<open>lastError_\<close> first, or \<^verbatim>\<open>State::lastError()\<close>; so the state returned
  by \<open>Err m\<close> is \<open>lastError m\<close>.
\<close>

datatype ('a, 'm) res = Ok 'a 'm | Err 'm | Halt halt

definition State_error :: "string \<Rightarrow> 'd machine \<Rightarrow> ('a, 'd machine) res" where
  "State_error s m = Err (m\<lparr>lastError := State False s\<rparr>)"

text \<open>\<^verbatim>\<open>if (! f(...)) return State::lastError();\<close> followed by the rest of the body.\<close>

definition and_then ::
  "('a, 'd machine) res \<Rightarrow> ('a \<Rightarrow> 'd machine \<Rightarrow> ('b, 'd machine) res) \<Rightarrow> ('b, 'd machine) res"
where
  "and_then r f = (case r of Ok a m \<Rightarrow> f a m | Err m \<Rightarrow> Err m | Halt h \<Rightarrow> Halt h)"

text \<open>\<^verbatim>\<open>std::make_shared\<close>: a new object at a fresh address.\<close>

definition make_shared :: "'d Token \<Rightarrow> 'd machine \<Rightarrow> addr \<times> 'd machine" where
  "make_shared t m = (brk m, m\<lparr>heap := (heap m)(brk m := t), brk := Suc (brk m)\<rparr>)"

definition endl :: string where
  "endl = [CHR 0x0A]"

text \<open>
  The debug blocks \<^verbatim>\<open>{ IgnoreBase ib; std::cout << label; token->print(std::cout);
  std::cout << std::endl; }\<close>: the destructor of \<^verbatim>\<open>IgnoreBase\<close> sets \<^verbatim>\<open>ignore_base_\<close>
  to false.
\<close>

definition debug_token :: "string \<Rightarrow> addr \<Rightarrow> 'd machine \<Rightarrow> 'd machine" where
  "debug_token label a m =
     m\<lparr>out := out m @ [Chars label, TokenOut a True, Chars endl], ignore_base := False\<rparr>"


section \<open>The parameter stack\<close>

definition pushToken :: "addr \<Rightarrow> 'd machine \<Rightarrow> 'd machine" where
  "pushToken token m =
     (let m1 = (if debug m then debug_token ''Push: '' token m else m)
      in m1\<lparr>tokens := tokens m1 @ [token]\<rparr>)"

text \<open>
  \<^verbatim>\<open>dup\<close> is \<^verbatim>\<open>assert(false)\<close> in \<^verbatim>\<open>Token\<close>; \<^verbatim>\<open>NumberToken\<close>,
  \<^verbatim>\<open>VariableRef\<close> and the built-ins made by \<^verbatim>\<open>MOD_BUILTIN_DEF\<close> (those with
  \<^verbatim>\<open>hasModifier\<close>) override it with a copy in a new object.
\<close>

definition hasModifier :: "BuiltinType \<Rightarrow> bool" where
  "hasModifier t =
     (t = Control DO_BUILTIN \<or> t = Control IF_BUILTIN \<or> t = Control BEGIN_BUILTIN \<or>
      t = InputOutput PRINTTO_BUILTIN \<or> t = InputOutput LOAD_BUILTIN \<or>
      t = Defining DOES_BUILTIN \<or> t = Defining COMMENT_BUILTIN)"

definition dup :: "addr \<Rightarrow> 'd machine \<Rightarrow> (addr, 'd machine) res" where
  "dup token m =
     (case heap m token of
        NumberToken n \<Rightarrow> (case make_shared (NumberToken n) m of (a, m1) \<Rightarrow> Ok a m1)
      | VariableRef v i \<Rightarrow> (case make_shared (VariableRef v i) m of (a, m1) \<Rightarrow> Ok a m1)
      | Builtin t v \<Rightarrow>
          (if hasModifier t then (case make_shared (Builtin t v) m of (a, m1) \<Rightarrow> Ok a m1)
           else Halt AssertFailed)
      | _ \<Rightarrow> Halt AssertFailed)"

definition pushDupToken :: "addr \<Rightarrow> 'd machine \<Rightarrow> (unit, 'd machine) res" where
  "pushDupToken token m =
     (if \<not> isImmutable (heap m token)
      then and_then (dup token m) (\<lambda>dtoken m1. Ok () (m1\<lparr>tokens := tokens m1 @ [dtoken]\<rparr>))
      else Ok () (m\<lparr>tokens := tokens m @ [token]\<rparr>))"

definition pushBoolean :: "bool \<Rightarrow> 'd machine \<Rightarrow> 'd machine" where
  "pushBoolean b m = (case make_shared (BooleanToken b) m of (token, m1) \<Rightarrow> pushToken token m1)"

definition pushInteger :: "int32 \<Rightarrow> 'd machine \<Rightarrow> 'd machine" where
  "pushInteger i m =
     (case make_shared (NumberToken (INTEGER_TYPE i)) m of (token, m1) \<Rightarrow> pushToken token m1)"

definition pushNumber :: "'d Number \<Rightarrow> 'd machine \<Rightarrow> 'd machine" where
  "pushNumber n m = (case make_shared (NumberToken n) m of (token, m1) \<Rightarrow> pushToken token m1)"

definition popToken :: "'d machine \<Rightarrow> (addr, 'd machine) res" where
  "popToken m =
     (if tokens m = [] then State_error ''STACK EMPTY'' m
      else (let token = last (tokens m);
                m1 = m\<lparr>tokens := butlast (tokens m)\<rparr>
            in Ok token (if debug m1 then debug_token ''Pop: '' token m1 else m1)))"

text \<open>\<^verbatim>\<open>popTokens(token1, token2)\<close> pops \<^verbatim>\<open>token2\<close> first.\<close>

definition popTokens :: "'d machine \<Rightarrow> (addr \<times> addr, 'd machine) res" where
  "popTokens m =
     and_then (popToken m) (\<lambda>token2 m1.
     and_then (popToken m1) (\<lambda>token1 m2. Ok (token1, token2) m2))"

section \<open>Variables\<close>

text \<open>
  The member functions of \<^verbatim>\<open>VarBase\<close> are defined on the two classes derived from it
  and on nothing else. The \<^verbatim>\<open>var_\<close> of a \<^verbatim>\<open>VariableRef\<close> is a \<^verbatim>\<open>Variable\<close>:
  the constructor is called by \<^verbatim>\<open>Variable::indexVar\<close>, which is handed the variable
  itself, and by \<^verbatim>\<open>VariableRef::dup\<close>.
\<close>

definition Variable_indValue :: "'d Token \<Rightarrow> int32 \<Rightarrow> addr option" where
  "Variable_indValue v ind =
     (if 0 \<le> sint ind \<and> sint ind < int (length (var_values v))
      then var_values v ! nat (sint ind) else None)"

fun ind :: "'d Token \<Rightarrow> int32" where
  "ind (Variable n vs i c e) = i"
| "ind (VariableRef v i) = i"

fun setInd :: "int32 \<Rightarrow> 'd Token \<Rightarrow> 'd Token" where
  "setInd j (Variable n vs i c e) = Variable n vs j c e"
| "setInd j (VariableRef v i) = VariableRef v j"

definition indValue :: "'d machine \<Rightarrow> addr \<Rightarrow> int32 \<Rightarrow> addr option" where
  "indValue m a i =
     (case heap m a of
        VariableRef v j \<Rightarrow> Variable_indValue (heap m v) (j + i)
      | t \<Rightarrow> Variable_indValue t i)"

definition "value" :: "'d machine \<Rightarrow> addr \<Rightarrow> addr option" where
  "value m a =
     (case heap m a of
        VariableRef v j \<Rightarrow> Variable_indValue (heap m v) j
      | t \<Rightarrow> Variable_indValue t (var_ind t))"

definition Variable_setIndValue ::
  "addr \<Rightarrow> int32 \<Rightarrow> addr option \<Rightarrow> 'd machine \<Rightarrow> bool \<times> 'd machine"
where
  "Variable_setIndValue a i v m =
     (let t = heap m a in
      if sint i < 0 \<or> sint i \<ge> int (length (var_values t)) then (False, m)
      else (True, m\<lparr>heap := (heap m)(a := Variable (var_name t)
              ((var_values t)[nat (sint i) := v]) (var_ind t) (var_constant t)
              (var_execTokens t))\<rparr>))"

definition setValue :: "addr \<Rightarrow> addr option \<Rightarrow> 'd machine \<Rightarrow> bool \<times> 'd machine" where
  "setValue a v m =
     (case heap m a of
        VariableRef r j \<Rightarrow> Variable_setIndValue r j v m
      | t \<Rightarrow> Variable_setIndValue a (var_ind t) v m)"

text \<open>
  \<^verbatim>\<open>indexVar\<close> makes a new \<^verbatim>\<open>VariableRef\<close>; \<^verbatim>\<open>Variable::indexVar(var, ind)\<close>
  is called as \<^verbatim>\<open>var->indexVar(var, n)\<close>.
\<close>

definition indexVar :: "addr \<Rightarrow> int32 \<Rightarrow> 'd machine \<Rightarrow> addr \<times> 'd machine" where
  "indexVar a i m =
     (case heap m a of
        VariableRef v j \<Rightarrow> make_shared (VariableRef v (i + j + var_ind (heap m v))) m
      | t \<Rightarrow> make_shared (VariableRef a (i + var_ind t)) m)"

text \<open>\<^verbatim>\<open>addr()\<close> is \<^verbatim>\<open>long(this) + ind_\<close>, the \<^verbatim>\<open>int\<close> sign-extended.\<close>

definition VarBase_addr :: "'d platform \<Rightarrow> 'd machine \<Rightarrow> addr \<Rightarrow> long" where
  "VarBase_addr pf m a =
     (case heap m a of
        VariableRef v j \<Rightarrow> address_of pf v + scast (var_ind (heap m v)) + scast j
      | t \<Rightarrow> address_of pf a + scast (var_ind t))"

text \<open>The dictionary: \<^verbatim>\<open>std::map\<close> from a name to a vector of definitions.\<close>

definition lookupVariable :: "string \<Rightarrow> 'd machine \<Rightarrow> addr option" where
  "lookupVariable nm m =
     (case variables m nm of
        None \<Rightarrow> None
      | Some vs \<Rightarrow> if vs = [] then None else Some (last vs))"

definition defineVariable :: "string \<Rightarrow> 'd machine \<Rightarrow> addr \<times> 'd machine" where
  "defineVariable nm m =
     (case make_shared (Variable nm [] 0 False []) m of (v, m1) \<Rightarrow>
        (let vs = (case variables m1 nm of None \<Rightarrow> [] | Some vs \<Rightarrow> vs);
             m2 = m1\<lparr>variables := (variables m1)(nm \<mapsto> vs @ [v])\<rparr>
         in (v, if debug m2
                then m2\<lparr>out := out m2 @ [Chars ''Define Var: '', Chars nm, Chars endl],
                        ignore_base := False\<rparr>
                else m2)))"

definition addValue :: "addr \<Rightarrow> addr \<Rightarrow> 'd machine \<Rightarrow> 'd machine" where
  "addValue v token m =
     (let t = heap m v
      in m\<lparr>heap := (heap m)(v := Variable (var_name t) (var_values t @ [Some token])
              (var_ind t) (var_constant t) (var_execTokens t))\<rparr>)"

definition defineVariable_token :: "string \<Rightarrow> addr \<Rightarrow> 'd machine \<Rightarrow> addr \<times> 'd machine" where
  "defineVariable_token nm token m =
     (case defineVariable nm m of (v, m1) \<Rightarrow> (v, addValue v token m1))"

definition defineVariable_int :: "string \<Rightarrow> int32 \<Rightarrow> 'd machine \<Rightarrow> addr \<times> 'd machine" where
  "defineVariable_int nm i m =
     (case make_shared (NumberToken (INTEGER_TYPE i)) m of (token, m1) \<Rightarrow>
        defineVariable_token nm token m1)"

definition forgetVariable :: "string \<Rightarrow> 'd machine \<Rightarrow> bool \<times> 'd machine" where
  "forgetVariable nm m =
     (case variables m nm of
        None \<Rightarrow> (False, m)
      | Some vs \<Rightarrow>
          if vs = [] then (False, m)
          else (let m1 = m\<lparr>variables := (variables m)(nm \<mapsto> butlast vs)\<rparr>
                in (True, if debug m1
                          then m1\<lparr>out := out m1 @ [Chars ''Forget Var: '', Chars nm, Chars endl],
                                  ignore_base := False\<rparr>
                          else m1)))"

definition lookupProcedure :: "string \<Rightarrow> 'd machine \<Rightarrow> addr option" where
  "lookupProcedure nm m =
     (case procedures m nm of
        None \<Rightarrow> None
      | Some ps \<Rightarrow> if ps = [] then None else Some (last ps))"

definition forgetProcedure :: "string \<Rightarrow> 'd machine \<Rightarrow> bool \<times> 'd machine" where
  "forgetProcedure nm m =
     (case procedures m nm of
        None \<Rightarrow> (False, m)
      | Some ps \<Rightarrow>
          if ps = [] then (False, m)
          else (let m1 = m\<lparr>procedures := (procedures m)(nm \<mapsto> butlast ps)\<rparr>
                in (True, if debug m1
                          then m1\<lparr>out := out m1 @ [Chars ''Forget Procedure'', Chars nm, Chars endl],
                                  ignore_base := False\<rparr>
                          else m1)))"


section \<open>Numbers on the stack\<close>

definition tokenToNumber :: "addr \<Rightarrow> 'd machine \<Rightarrow> ('d Number, 'd machine) res" where
  "tokenToNumber token m =
     (case (if isVarBase (heap m token) \<and> isConstant (heap m token)
            then value m token else Some token) of
        None \<Rightarrow> Halt NullPointer
      | Some t \<Rightarrow>
          if \<not> isNumber (heap m t) then State_error ''must be number'' m
          else Ok (number (heap m t)) m)"

definition popNumber :: "'d machine \<Rightarrow> ('d Number, 'd machine) res" where
  "popNumber m = and_then (popToken m) (\<lambda>token m1. tokenToNumber token m1)"

text \<open>\<^verbatim>\<open>popNumbers(n1, n2)\<close> pops \<^verbatim>\<open>n2\<close> first.\<close>

definition popNumbers :: "'d machine \<Rightarrow> ('d Number \<times> 'd Number, 'd machine) res" where
  "popNumbers m =
     and_then (popNumber m) (\<lambda>n2 m1.
     and_then (popNumber m1) (\<lambda>n1 m2. Ok (n1, n2) m2))"

section \<open>The base\<close>

text \<open>
  \<^verbatim>\<open>Variable::getInteger(int &i)\<close> sets \<^verbatim>\<open>i\<close> to 0 before it looks at the value, and
  calls \<^verbatim>\<open>isNumber\<close> through the pointer \<^verbatim>\<open>value()\<close> returns, which is null when the
  index is out of range.
\<close>

definition getInteger :: "'d platform \<Rightarrow> 'd machine \<Rightarrow> addr \<Rightarrow> halt + bool \<times> int32" where
  "getInteger pf m v =
     (case value m v of
        None \<Rightarrow> Inl NullPointer
      | Some t \<Rightarrow>
          if \<not> isNumber (heap m t) then Inr (False, 0)
          else Inr (True, Number_integer pf (number (heap m t))))"

text \<open>\<^verbatim>\<open>std::min\<close> and \<^verbatim>\<open>std::max\<close> on \<^verbatim>\<open>int\<close>.\<close>

definition int_min :: "int32 \<Rightarrow> int32 \<Rightarrow> int32" where
  "int_min a b = (if sint b < sint a then b else a)"

definition int_max :: "int32 \<Rightarrow> int32 \<Rightarrow> int32" where
  "int_max a b = (if sint a < sint b then b else a)"

definition getBase :: "'d platform \<Rightarrow> 'd machine \<Rightarrow> halt + int32" where
  "getBase pf m =
     (if ignore_base m then Inr 10
      else case lookupVariable ''BASE'' m of
        None \<Rightarrow> Inr 10
      | Some v \<Rightarrow>
          (case getInteger pf m v of
             Inl h \<Rightarrow> Inl h
           | Inr (ok, base) \<Rightarrow>
               if \<not> ok then Inr base
               else Inr (int_min (int_max base 2) 36)))"

section \<open>Built-ins\<close>

definition DupBuiltin_exec :: "'d machine \<Rightarrow> (unit, 'd machine) res" where
  "DupBuiltin_exec m =
     (if tokens m = [] then State_error ''STACK EMPTY'' m
      else (let token = last (tokens m)
            in and_then (pushDupToken token m) (\<lambda>u m1.
                 Ok () (if debug m1 then debug_token ''Dup: '' token m1 else m1))))"

definition OverBuiltin_exec :: "'d machine \<Rightarrow> (unit, 'd machine) res" where
  "OverBuiltin_exec m =
     (let nt = length (tokens m) in
      if nt < 2 then State_error ''STACK UNDERFLOW'' m
      else (let token = tokens m ! (nt - 2)
            in and_then (pushDupToken token m) (\<lambda>u m1.
                 Ok () (if debug m1 then debug_token ''Over: '' token m1 else m1))))"

text \<open>
  The loop of \<^verbatim>\<open>RollBuiltin::exec\<close>,
  \<^verbatim>\<open>for (uint n1 = uint(nt - i); n1 < nt; ++n1) tokens_[n1] = tokens_[n1 + 1];\<close>
  on a vector of \<^verbatim>\<open>nt\<close> elements. An index outside the vector stops the run with
  \<open>OutOfRange\<close>.
\<close>

function Roll_loop :: "nat \<Rightarrow> addr list \<Rightarrow> halt + addr list" where
  "Roll_loop n1 ts =
     (if n1 < length ts then
        (if n1 + 1 < length ts then Roll_loop (n1 + 1) (ts[n1 := ts ! (n1 + 1)])
         else Inl OutOfRange)
      else Inr ts)"
  by pat_completeness auto
termination
  by (relation "measure (\<lambda>(n1, ts). length ts - n1)") auto

definition RollBuiltin_exec :: "'d platform \<Rightarrow> 'd machine \<Rightarrow> (unit, 'd machine) res" where
  "RollBuiltin_exec pf m =
     and_then (popNumber m) (\<lambda>n m1.
       if \<not> Number_isInteger n then State_error ''Must be integer'' m1
       else (let i = Number_integer pf n; nt = length (tokens m1) in
         if sint i > int nt then State_error ''STACK UNDERFLOW'' m1
         else (let k = nat (int nt - sint i) in
           if \<not> k < nt then Halt OutOfRange
           else (let token = tokens m1 ! k in
             case Roll_loop (k mod 2 ^ 32) (tokens m1) of
               Inl h \<Rightarrow> Halt h
             | Inr ts \<Rightarrow>
                 (let m2 = m1\<lparr>tokens := butlast ts @ [token]\<rparr>
                  in Ok () (if debug m2
                      then m2\<lparr>out := out m2 @ [Chars ''Roll('', IntOut i, Chars '') : '',
                                TokenOut token True, Chars endl], ignore_base := False\<rparr>
                      else m2))))))"

definition QDupBuiltin_exec :: "'d platform \<Rightarrow> 'd machine \<Rightarrow> (unit, 'd machine) res" where
  "QDupBuiltin_exec pf m =
     and_then (popNumber m) (\<lambda>n m1.
       Ok () (if Number_integer pf n \<noteq> 0 then pushNumber n m1 else m1))"

definition ModBuiltin_exec :: "'d platform \<Rightarrow> 'd machine \<Rightarrow> (unit, 'd machine) res" where
  "ModBuiltin_exec pf m =
     and_then (popNumbers m) (\<lambda>(n1, n2) m1.
       case Number_mod pf n1 n2 of
         Inl h \<Rightarrow> Halt h
       | Inr n \<Rightarrow> Ok () (pushNumber n m1))"

definition Plus1Builtin_exec :: "'d platform \<Rightarrow> 'd machine \<Rightarrow> (unit, 'd machine) res" where
  "Plus1Builtin_exec pf m =
     (if tokens m = [] then State_error ''STACK UNDERFLOW'' m
      else (let token = last (tokens m); m1 = m\<lparr>tokens := butlast (tokens m)\<rparr> in
        if isVarRef (heap m1 token)
        then (case indexVar token 1 m1 of (r, m2) \<Rightarrow> Ok () (pushToken r m2))
        else and_then (tokenToNumber token m1) (\<lambda>n m2.
               Ok () (pushNumber (Number_plus pf n (INTEGER_TYPE 1)) m2))))"

definition StoreBuiltin_exec :: "'d machine \<Rightarrow> (unit, 'd machine) res" where
  "StoreBuiltin_exec m =
     (let nt = length (tokens m) in
      if nt < 2 then State_error ''STACK UNDERFLOW'' m
      else (let token1 = tokens m ! (nt - 1); token2 = tokens m ! (nt - 2);
                m1 = m\<lparr>tokens := butlast (butlast (tokens m))\<rparr> in
        if \<not> isVarRef (heap m1 token1) then State_error ''Not a variable'' m1
        else (case setValue token1 (Some token2) m1 of (ok, m2) \<Rightarrow>
          if \<not> ok then State_error ''invalid variable'' m2
          else Ok () (if debug m2
                 then m2\<lparr>out := out m2 @ [Chars ''Store '', TokenOut token1 True, Chars '' = '',
                           TokenOut token2 True, Chars endl], ignore_base := False\<rparr>
                 else m2))))"

definition DecimalBuiltin_exec :: "'d machine \<Rightarrow> (unit, 'd machine) res" where
  "DecimalBuiltin_exec m =
     (case lookupVariable ''BASE'' m of
        None \<Rightarrow> Ok () (snd (defineVariable_int ''BASE'' 10 m))
      | Some v \<Rightarrow> Ok () m)"

definition PrintBuiltin_exec :: "'d machine \<Rightarrow> (unit, 'd machine) res" where
  "PrintBuiltin_exec m =
     (case popToken m of
        Halt h \<Rightarrow> Halt h
      | Err m1 \<Rightarrow> Err (m1\<lparr>out := out m1 @ [Chars ''0'', Chars endl]\<rparr>)
      | Ok token m1 \<Rightarrow>
          (case (if isVariable (heap m1 token) \<and> isConstant (heap m1 token)
                 then value m1 token else Some token) of
             None \<Rightarrow> Halt NullPointer
           | Some t \<Rightarrow> Ok () (m1\<lparr>out := out m1 @ [TokenOut t (ignore_base m1), Chars '' '']\<rparr>)))"

definition IBuiltin_exec :: "'d machine \<Rightarrow> (unit, 'd machine) res" where
  "IBuiltin_exec m =
     (let n = length (retTokens m) in
      if n < 2 then State_error ''Not in DO'' m
      else Ok () (pushToken (retTokens m ! (n - 2)) m))"


section \<open>Comparing and incrementing tokens\<close>

text \<open>
  The virtual \<^verbatim>\<open>Token::inc\<close>: a \<^verbatim>\<open>NumberToken\<close> adds to its number, a
  \<^verbatim>\<open>VarBase\<close> moves its index, both in place; every other token answers
  \<^verbatim>\<open>inc not supported\<close>.
\<close>

definition inc :: "'d platform \<Rightarrow> addr \<Rightarrow> 'd Number \<Rightarrow> 'd machine \<Rightarrow> (unit, 'd machine) res" where
  "inc pf a n m =
     (case heap m a of
        NumberToken x \<Rightarrow> Ok () (m\<lparr>heap := (heap m)(a := NumberToken (Number_inc pf x n))\<rparr>)
      | Variable nm vs i c e \<Rightarrow>
          Ok () (m\<lparr>heap := (heap m)(a := setInd (i + Number_integer pf n) (heap m a))\<rparr>)
      | VariableRef v i \<Rightarrow>
          Ok () (m\<lparr>heap := (heap m)(a := setInd (i + Number_integer pf n) (heap m a))\<rparr>)
      | _ \<Rightarrow> State_error ''inc not supported'' m)"

text \<open>
  The virtual \<^verbatim>\<open>Token::cmp\<close>, called as \<^verbatim>\<open>a->cmp(token, res)\<close>: numbers compare
  by \<^verbatim>\<open>Number::cmp\<close>, variables and references by \<^verbatim>\<open>addr()\<close> as signed
  \<^verbatim>\<open>long\<close>.
\<close>

definition cmp :: "'d platform \<Rightarrow> addr \<Rightarrow> addr \<Rightarrow> 'd machine \<Rightarrow> (int, 'd machine) res" where
  "cmp pf a token m =
     (case heap m a of
        NumberToken x \<Rightarrow>
          if isNumber (heap m token) then Ok (Number_cmp pf x (number (heap m token))) m
          else State_error ''cmp not supported'' m
      | BooleanToken b \<Rightarrow> State_error ''cmp not supported'' m
      | Builtin t v \<Rightarrow> State_error ''cmp not supported'' m
      | Procedure nm ts \<Rightarrow> State_error ''cmp not supported'' m
      | _ \<Rightarrow>
          if isVarBase (heap m token) then
            (let p1 = sint (VarBase_addr pf m a); p2 = sint (VarBase_addr pf m token)
             in Ok (if p1 > p2 then 1 else if p1 < p2 then - 1 else 0) m)
          else State_error ''cmp not supported'' m)"

section \<open>The DO loop\<close>

text \<open>
  The loops call \<^verbatim>\<open>execToken\<close>, which reaches every built-in of the interpreter and
  need not return. It is the argument \<open>ex\<close> of the functions below: \<open>ex token m\<close> is
  \<open>None\<close> when the call does not return.

  The inner loop of \<^verbatim>\<open>DoBuiltin::exec1\<close>,
  \<^verbatim>\<open>for (auto token : tokens_.tokens) { if (! execToken(token)) return
  State::lastError(); if (tokens_.leave) break; }\<close>; \<open>self\<close> is the address of the DO
  built-in, whose \<^verbatim>\<open>leave\<close> flag the LEAVE built-in sets.
\<close>

fun DoBuiltin_body ::
  "(addr \<Rightarrow> 'd machine \<Rightarrow> (unit, 'd machine) res option) \<Rightarrow> addr \<Rightarrow> addr list \<Rightarrow> 'd machine
     \<Rightarrow> (unit, 'd machine) res option"
where
  "DoBuiltin_body ex self [] m = Some (Ok () m)"
| "DoBuiltin_body ex self (token # ts) m =
     (case ex token m of
        None \<Rightarrow> None
      | Some (Halt h) \<Rightarrow> Some (Halt h)
      | Some (Err m1) \<Rightarrow> Some (Err m1)
      | Some (Ok u m1) \<Rightarrow>
          if leave (getValue (heap m1 self)) then Some (Ok () m1)
          else DoBuiltin_body ex self ts m1)"

text \<open>
  The \<^verbatim>\<open>for (;;)\<close> of \<^verbatim>\<open>DoBuiltin::exec1\<close>, with the locals \<^verbatim>\<open>up\<close> and
  \<^verbatim>\<open>inc\<close> (here \<open>step\<close>) as arguments. The function is partial: \<open>None\<close> is a loop
  that does not end.
\<close>

partial_function (option) DoBuiltin_loop ::
  "'d platform \<Rightarrow> (addr \<Rightarrow> 'd machine \<Rightarrow> (unit, 'd machine) res option) \<Rightarrow> addr \<Rightarrow> bool
     \<Rightarrow> 'd Number \<Rightarrow> addr \<Rightarrow> addr \<Rightarrow> 'd machine \<Rightarrow> (unit, 'd machine) res option"
where
  "DoBuiltin_loop pf ex self up step startToken endToken m =
     (case cmp pf endToken startToken m of
        Halt h \<Rightarrow> Some (Halt h)
      | Err m1 \<Rightarrow> Some (Err m1)
      | Ok c m1 \<Rightarrow>
          if (if up then c \<le> 0 else c \<ge> 0) then Some (Ok () m1)
          else
            (case DoBuiltin_body ex self (do_tokens (getValue (heap m1 self))) m1 of
               None \<Rightarrow> None
             | Some (Halt h) \<Rightarrow> Some (Halt h)
             | Some (Err m2) \<Rightarrow> Some (Err m2)
             | Some (Ok u m2) \<Rightarrow>
                 if leave (getValue (heap m2 self)) then Some (Ok () m2)
                 else
                   (case (if incToken (getValue (heap m2 self)) then popNumber m2
                          else Ok step m2) of
                      Halt h \<Rightarrow> Some (Halt h)
                    | Err m3 \<Rightarrow> Some (Err m3)
                    | Ok step1 m3 \<Rightarrow>
                        (case inc pf startToken step1 m3 of
                           Halt h \<Rightarrow> Some (Halt h)
                         | Err m4 \<Rightarrow> Some (Err m4)
                         | Ok u m4 \<Rightarrow>
                             DoBuiltin_loop pf ex self up step1 startToken endToken m4))))"

text \<open>\<^verbatim>\<open>tokens_.leave = false\<close> on the DO built-in at \<open>self\<close>.\<close>

definition clear_leave :: "addr \<Rightarrow> 'd machine \<Rightarrow> 'd machine" where
  "clear_leave self m =
     (let v = getValue (heap m self)
      in m\<lparr>heap := (heap m)(self := Builtin (builtinType (heap m self))
              (DoTokens (do_tokens v) (incToken v) False))\<rparr>)"

definition DoBuiltin_exec1 ::
  "'d platform \<Rightarrow> (addr \<Rightarrow> 'd machine \<Rightarrow> (unit, 'd machine) res option) \<Rightarrow> addr
     \<Rightarrow> addr \<Rightarrow> addr \<Rightarrow> 'd machine \<Rightarrow> (unit, 'd machine) res option"
where
  "DoBuiltin_exec1 pf ex self startToken endToken m =
     (case cmp pf endToken startToken m of
        Halt h \<Rightarrow> Some (Halt h)
      | Err m1 \<Rightarrow> Some (Err m1)
      | Ok c m1 \<Rightarrow>
          DoBuiltin_loop pf ex self (c > 0) (INTEGER_TYPE 1) startToken endToken
            (clear_leave self m1))"

text \<open>
  \<^verbatim>\<open>DoBuiltin::exec\<close>: \<^verbatim>\<open>popTokens(endToken, startToken)\<close> takes the start from the
  top of the stack and the limit from below it; the loop runs on a copy of the start.
\<close>

definition DoBuiltin_exec ::
  "'d platform \<Rightarrow> (addr \<Rightarrow> 'd machine \<Rightarrow> (unit, 'd machine) res option) \<Rightarrow> addr
     \<Rightarrow> 'd machine \<Rightarrow> (unit, 'd machine) res option"
where
  "DoBuiltin_exec pf ex self m =
     (case popTokens m of
        Halt h \<Rightarrow> Some (Halt h)
      | Err m1 \<Rightarrow> Some (Err m1)
      | Ok (endToken, startToken0) m1 \<Rightarrow>
          (case dup startToken0 m1 of
             Halt h \<Rightarrow> Some (Halt h)
           | Err m2 \<Rightarrow> Some (Err m2)
           | Ok startToken m2 \<Rightarrow>
               (case DoBuiltin_exec1 pf ex self startToken endToken
                       (m2\<lparr>retTokens := retTokens m2 @ [startToken, endToken]\<rparr>) of
                  None \<Rightarrow> None
                | Some (Halt h) \<Rightarrow> Some (Halt h)
                | Some (Err m3) \<Rightarrow> Some (Err m3)
                | Some (Ok u m3) \<Rightarrow>
                    Some (Ok () (m3\<lparr>retTokens := butlast (butlast (retTokens m3))\<rparr>)))))"

text \<open>
  The machine is inside pass \<open>k\<close> (counted from 0) of the plain LOOP at \<open>self\<close> that runs
  from \<open>start\<close> to \<open>limit\<close>: the return stack is as \<^verbatim>\<open>DoBuiltin::exec\<close> left it, with
  the index object \<open>s\<close> and the limit object \<open>e\<close> on top, the index holds \<open>start + k\<close>,
  the limit holds \<open>limit\<close>, and the DO built-in has its body, no increment token and no
  request to leave.
\<close>

definition in_pass ::
  "addr \<Rightarrow> addr \<Rightarrow> addr \<Rightarrow> addr list \<Rightarrow> addr list \<Rightarrow> int32 \<Rightarrow> int32 \<Rightarrow> nat \<Rightarrow> 'd machine \<Rightarrow> bool"
where
  "in_pass self s e body rs start limit k m =
     (retTokens m = rs @ [s, e] \<and>
      heap m s = NumberToken (INTEGER_TYPE (start + of_nat k)) \<and>
      heap m e = NumberToken (INTEGER_TYPE limit) \<and>
      heap m self = Builtin (Control DO_BUILTIN) (DoTokens body False False))"

text \<open>
  The run of a plain LOOP as it is specified, to compare with \<^verbatim>\<open>DoBuiltin::exec\<close>. It
  is written without the functions above: only \<open>ex\<close>, the execution of one token, is
  shared.

  The machine in which the first pass starts: the start \<open>s0\<close> and the limit \<open>e\<close> are gone
  from the parameter stack (with the two \<^verbatim>\<open>Pop:\<close> lines of debug mode), the index is a
  new number object that holds \<open>start\<close>, the index and the limit are on top of the return
  stack, and the DO built-in has no request to leave.
\<close>

definition LOOP_spec_entry ::
  "addr \<Rightarrow> addr \<Rightarrow> addr \<Rightarrow> addr list \<Rightarrow> addr list \<Rightarrow> int32 \<Rightarrow> 'd machine \<Rightarrow> 'd machine"
where
  "LOOP_spec_entry self s0 e body ts start m =
     (let m1 = (if debug m then debug_token ''Pop: '' e (debug_token ''Pop: '' s0 m) else m)
      in m1\<lparr>heap := (heap m)(brk m := NumberToken (INTEGER_TYPE start),
                               self := Builtin (Control DO_BUILTIN) (DoTokens body False False)),
             brk := Suc (brk m), tokens := ts, retTokens := retTokens m @ [brk m, e]\<rparr>)"

text \<open>
  The body in pass \<open>k\<close>: every token is executed, in the order of the body, each
  execution returns success, and before and after each of them the machine is in the pass
  (\<open>P\<close>): the body does not change the return stack or the objects of the loop, and does
  not ask to leave. The result is \<open>None\<close> when the body does not behave so.
\<close>

fun LOOP_spec_body ::
  "(addr \<Rightarrow> 'd machine \<Rightarrow> (unit, 'd machine) res option) \<Rightarrow> ('d machine \<Rightarrow> bool) \<Rightarrow> addr list
     \<Rightarrow> 'd machine \<Rightarrow> 'd machine option"
where
  "LOOP_spec_body ex P [] m = (if P m then Some m else None)"
| "LOOP_spec_body ex P (token # ts) m =
     (if P m then
        (case ex token m of
           Some (Ok u m1) \<Rightarrow> LOOP_spec_body ex P ts m1
         | _ \<Rightarrow> None)
      else None)"

text \<open>
  \<open>n\<close> passes, the first of them pass \<open>k\<close>: the body, then the index holds
  \<open>start + (k + 1)\<close>, and so on for the passes that remain.
\<close>

fun LOOP_spec_passes ::
  "(addr \<Rightarrow> 'd machine \<Rightarrow> (unit, 'd machine) res option) \<Rightarrow> addr \<Rightarrow> addr \<Rightarrow> addr \<Rightarrow> addr list
     \<Rightarrow> addr list \<Rightarrow> int32 \<Rightarrow> int32 \<Rightarrow> nat \<Rightarrow> nat \<Rightarrow> 'd machine \<Rightarrow> 'd machine option"
where
  "LOOP_spec_passes ex self s e body rs start limit 0 k m = Some m"
| "LOOP_spec_passes ex self s e body rs start limit (Suc n) k m =
     (case LOOP_spec_body ex (in_pass self s e body rs start limit k) body m of
        None \<Rightarrow> None
      | Some m1 \<Rightarrow>
          LOOP_spec_passes ex self s e body rs start limit n (Suc k)
            (m1\<lparr>heap := (heap m1)(s := NumberToken (INTEGER_TYPE (start + of_nat (Suc k))))\<rparr>))"

section \<open>Reading words\<close>

text \<open>
  \<^verbatim>\<open>class Line\<close>. The member \<^verbatim>\<open>len_\<close> is the size of \<^verbatim>\<open>str_\<close> after every member
  function, so it is \<open>length (str l)\<close> here. \<^verbatim>\<open>str_[pos_]\<close> is the character at the
  position, and the terminating NUL when the position is the size of the string.
\<close>

definition lookChar :: "Line \<Rightarrow> char" where
  "lookChar l = (if pos l < length (str l) then str l ! pos l else CHR 0x00)"

definition isValid :: "Line \<Rightarrow> bool" where
  "isValid l = (pos l < length (str l))"

definition skipChar :: "Line \<Rightarrow> Line" where
  "skipChar l = l\<lparr>pos := pos l + 1\<rparr>"

text \<open>\<^verbatim>\<open>isspace\<close> in the C locale.\<close>

definition isspace :: "char \<Rightarrow> bool" where
  "isspace c = (c \<in> {CHR '' '', CHR 0x09, CHR 0x0A, CHR 0x0B, CHR 0x0C, CHR 0x0D})"

text \<open>
  The loops \<^verbatim>\<open>while (line.isValid() && P(line)) str += line.getChar();\<close>: the
  characters read and the line after them.
\<close>

definition getChars :: "(char \<Rightarrow> bool) \<Rightarrow> Line \<Rightarrow> string \<times> Line" where
  "getChars P l =
     (let cs = takeWhile P (drop (pos l) (str l)) in (cs, l\<lparr>pos := pos l + length cs\<rparr>))"

definition skipSpace :: "Line \<Rightarrow> Line" where
  "skipSpace l = snd (getChars isspace l)"

text \<open>\<^verbatim>\<open>readWord(Line &line, Word &word)\<close>; it always returns true.\<close>

definition readWord_line :: "Line \<Rightarrow> string \<times> Line" where
  "readWord_line l =
     (let c = lookChar l;
          (cs, l1) = getChars (\<lambda>c. \<not> isspace c) (skipChar l)
      in (c # cs, skipSpace l1))"

text \<open>
  \<^verbatim>\<open>File::readLine\<close>: nothing is read from a closed stream or after the end-of-file
  indicator is set; otherwise the line is the text up to and including the next newline,
  and \<^verbatim>\<open>fgetc\<close> sets the indicator when it finds no character.
\<close>

definition readLine :: "File \<Rightarrow> (File \<times> Line) option" where
  "readLine f =
     (if \<not> fp_open f \<or> fp_eof f then None
      else (let cs = takeWhile (\<lambda>c. c \<noteq> CHR 0x0A) (fp_rest f);
                rest = drop (length cs) (fp_rest f)
            in if rest = [] then Some (f\<lparr>fp_rest := [], fp_eof := True\<rparr>, \<lparr>str = cs, pos = 0\<rparr>)
               else Some (f\<lparr>fp_rest := tl rest\<rparr>, \<lparr>str = cs @ [CHR 0x0A], pos = 0\<rparr>)))"

text \<open>The two loops of \<^verbatim>\<open>fillBuffer\<close>.\<close>

function fill_from_file :: "File \<Rightarrow> Line \<Rightarrow> bool \<times> File \<times> Line" where
  "fill_from_file f l =
     (if isValid l then (True, f, l)
      else case readLine f of
             None \<Rightarrow> (False, f, l)
           | Some (f1, l1) \<Rightarrow> fill_from_file f1 (skipSpace l1))"
  by pat_completeness auto
termination
  by (relation "measure (\<lambda>(f, l). if fp_open f \<and> \<not> fp_eof f then Suc (length (fp_rest f)) else 0)")
     (auto simp: readLine_def Let_def split: if_splits)

function fill_from_lines :: "Line list \<Rightarrow> Line \<Rightarrow> bool \<times> Line list \<times> Line" where
  "fill_from_lines ls l =
     (if isValid l then (True, ls, l)
      else if ls = [] then (False, ls, l)
      else fill_from_lines (butlast ls) (skipSpace (last ls)))"
  by pat_completeness auto
termination
  by (relation "measure (\<lambda>(ls, l). length ls)") auto

definition fillBuffer :: "'d machine \<Rightarrow> bool \<times> 'd machine" where
  "fillBuffer m =
     (let m1 = (if isValid (line m) then m\<lparr>line := skipSpace (line m)\<rparr> else m) in
      if fp_open (input_file m1)
      then (case fill_from_file (input_file m1) (line m1) of
              (ok, f, l) \<Rightarrow> (ok, m1\<lparr>input_file := f, line := l\<rparr>))
      else (case fill_from_lines (lines m1) (line m1) of
              (ok, ls, l) \<Rightarrow> (ok, m1\<lparr>lines := ls, line := l\<rparr>)))"

text \<open>\<^verbatim>\<open>readWord(Word &word)\<close>: \<open>None\<close> is the return value false.\<close>

definition readWord :: "'d machine \<Rightarrow> string option \<times> 'd machine" where
  "readWord m =
     (case fillBuffer m of
        (False, m1) \<Rightarrow> (None, m1)
      | (True, m1) \<Rightarrow>
          (case readWord_line (line m1) of (w, l) \<Rightarrow> (Some w, m1\<lparr>line := l\<rparr>)))"

definition ForgetBuiltin_exec :: "'d machine \<Rightarrow> (unit, 'd machine) res" where
  "ForgetBuiltin_exec m =
     (case readWord m of
        (None, m1) \<Rightarrow> State_error ''Missing word'' m1
      | (Some word, m1) \<Rightarrow>
          if lookupVariable word m1 \<noteq> None then
            (case forgetVariable word m1 of (forgot, m2) \<Rightarrow>
               if forgot then State_error ''Unknown variable'' m2 else Ok () m2)
          else if lookupProcedure word m1 \<noteq> None then
            (case forgetProcedure word m1 of (forgot, m2) \<Rightarrow>
               if forgot then State_error ''Unknown procedure'' m2 else Ok () m2)
          else State_error ''Unknown word'' m1)"

section \<open>Numbers in a base\<close>

definition base_chars :: string where
  "base_chars = ''0123456789ABCDEFGHIJKLMNOPQRSTUVWXYZ''"

text \<open>\<^verbatim>\<open>std::string::find\<close> of a character: the first position, or \<^verbatim>\<open>npos\<close>.\<close>

fun find_char :: "string \<Rightarrow> char \<Rightarrow> nat option" where
  "find_char [] c = None"
| "find_char (x # xs) c = (if x = c then Some 0 else map_option Suc (find_char xs c))"

definition islower :: "char \<Rightarrow> bool" where
  "islower c = (97 \<le> (of_char c :: nat) \<and> (of_char c :: nat) \<le> 122)"

definition toupper :: "char \<Rightarrow> char" where
  "toupper c = (if islower c then char_of ((of_char c :: nat) - 32) else c)"

text \<open>\<^verbatim>\<open>isBaseChar(c, base, &value)\<close>: \<open>Some value\<close> when it returns true.\<close>

definition isBaseChar :: "char \<Rightarrow> int32 \<Rightarrow> int32 option" where
  "isBaseChar c base =
     (if sint base < 2 \<or> sint base > int (length base_chars) then None
      else (let c1 = (if islower c then toupper c else c) in
        case find_char base_chars c1 of
          None \<Rightarrow> None
        | Some p \<Rightarrow> if int p \<ge> sint base then None else Some (of_nat p)))"

definition long_divide :: "long \<Rightarrow> long \<Rightarrow> long" where
  "long_divide a b = word_of_int (sint a sdiv sint b)"

text \<open>
  The loop of \<^verbatim>\<open>toBaseInteger\<close> over the characters, \<^verbatim>\<open>*integer\<close> being the
  accumulator; the arithmetic is that of \<^verbatim>\<open>long\<close>, the \<^verbatim>\<open>int\<close> operands
  sign-extended.
\<close>

fun toBaseInteger_loop :: "string \<Rightarrow> int32 \<Rightarrow> long \<Rightarrow> 'd machine \<Rightarrow> (long, 'd machine) res" where
  "toBaseInteger_loop [] base integer m = Ok integer m"
| "toBaseInteger_loop (c # cs) base integer m =
     (case isBaseChar c base of
        None \<Rightarrow> State_error ''Invalid Char'' m
      | Some v \<Rightarrow>
          (let integer1 = scast base * integer + scast v in
           if long_divide (integer1 - scast v) (scast base) \<noteq> integer
           then State_error ''Overflow'' m
           else toBaseInteger_loop cs base integer1 m))"

definition INT_MAX :: int where
  "INT_MAX = 2147483647"

definition INT_MIN :: int where
  "INT_MIN = - 2147483648"

definition toBaseInteger :: "string \<Rightarrow> int32 \<Rightarrow> 'd machine \<Rightarrow> (long, 'd machine) res" where
  "toBaseInteger s base m =
     (if sint base < 2 \<or> sint base > int (length base_chars) then State_error ''Invalid Base'' m
      else and_then (toBaseInteger_loop s base 0 m) (\<lambda>integer m1.
        if sint integer > INT_MAX \<or> sint integer < INT_MIN then State_error ''Overflow'' m1
        else Ok integer m1))"

text \<open>
  The loop of \<^verbatim>\<open>toBaseString\<close>,
  \<^verbatim>\<open>while (integer >= base) { int n = integer % base; str = base_chars[n] + str;
  integer /= base; }\<close>, which is entered with a base of 2 at least.
\<close>

function toBaseString_loop :: "int32 \<Rightarrow> int32 \<Rightarrow> string \<Rightarrow> int32 \<times> string" where
  "toBaseString_loop base integer s =
     (if 2 \<le> sint base \<and> sint integer \<ge> sint base
      then toBaseString_loop base (int_divide integer base)
             (base_chars ! nat (sint (int_modulo integer base)) # s)
      else (integer, s))"
  by pat_completeness auto
termination
proof (relation "measure (\<lambda>(base, integer, s). nat (sint integer))", goal_cases)
  case 1
  show ?case by simp
next
  case (2 base integer s)
  then have b: "2 \<le> sint base" and i: "sint base \<le> sint integer" by auto
  have up: "sint integer < 2147483648"
    using sint_lt [of integer] by simp
  have q: "sint integer sdiv sint base = sint integer div sint base"
    using b i by (simp add: signed_divide_int_def sgn_if)
  have lt: "sint integer div sint base < sint integer"
    using b i by (intro int_div_less_self) auto
  have ge: "0 \<le> sint integer div sint base"
    using b i by (simp add: pos_imp_zdiv_nonneg_iff)
  have "sint (word_of_int (sint integer div sint base) :: int32) = sint integer div sint base"
    using lt ge up by (simp add: sint_sbintrunc' signed_take_bit_int_eq_self)
  then have "sint (int_divide integer base) = sint integer div sint base"
    by (simp add: int_divide_def q)
  then show ?case using lt ge by simp
qed

text \<open>
  \<^verbatim>\<open>toBaseString\<close>. The negation wraps for the least \<^verbatim>\<open>int\<close>; \<^verbatim>\<open>base_chars\<close> is
  then indexed outside the string, which is \<open>OutOfRange\<close>.
\<close>

definition toBaseString :: "int32 \<Rightarrow> int32 \<Rightarrow> halt + string" where
  "toBaseString base integer =
     (if sint base < 2 \<or> sint base > int (length base_chars) then Inr []
      else (let (s0, integer0) = (if sint integer < 0 then (''-'', - integer) else ([], integer));
                (integer1, s1) = toBaseString_loop base integer0 s0
            in if 0 \<le> sint integer1 \<and> sint integer1 < int (length base_chars)
               then Inr (base_chars ! nat (sint integer1) # s1)
               else Inl OutOfRange))"

text \<open>
  \<^verbatim>\<open>Line::isOneOf\<close> is \<^verbatim>\<open>strchr(chars, c) != nullptr\<close>, which also holds of the
  terminating NUL. \<^verbatim>\<open>lookNextChar\<close> reads \<^verbatim>\<open>str_[pos_ + offset]\<close> up to the size
  of the string.
\<close>

definition isOneOf :: "string \<Rightarrow> Line \<Rightarrow> bool" where
  "isOneOf chars l = (lookChar l \<in> set chars \<or> lookChar l = CHR 0x00)"

definition lookNextChar :: "Line \<Rightarrow> nat \<Rightarrow> char" where
  "lookNextChar l offset =
     (if pos l + offset < length (str l) then str l ! (pos l + offset) else CHR 0x00)"

text \<open>
  \<^verbatim>\<open>readNumberToken(Line &line, NumberTokenP &token)\<close>: the line as the call leaves it
  and the result. On an error the position is set back to where the call found it.
\<close>

definition readNumberToken ::
  "'d platform \<Rightarrow> Line \<Rightarrow> 'd machine \<Rightarrow> Line \<times> (addr, 'd machine) res"
where
  "readNumberToken pf l m =
     (case getBase pf m of
        Inl h \<Rightarrow> (l, Halt h)
      | Inr base \<Rightarrow>
         (let digit = (\<lambda>c. isBaseChar c base \<noteq> None);
              (sign, l1) = (if isOneOf ''+-'' l
                            then (if lookChar l = CHR ''-'' then - 1 else 1, skipChar l)
                            else (1 :: int32, l))
          in if \<not> digit (lookChar l1) then (l, State_error ''Not a number'' m)
             else
              (let (ds, l2) = getChars digit l1;
                   (real1, s1, l3) =
                     (if isValid l2 \<and> lookChar l2 = CHR ''.''
                      then (case getChars digit (skipChar l2) of
                              (fs, l') \<Rightarrow> (True, ds @ CHR ''.'' # fs, l'))
                      else (False, ds, l2));
                   (real2, s2, l4) =
                     (if isValid l3 \<and> isOneOf ''Ee'' l3 \<and> digit (lookNextChar l3 1)
                      then (case getChars digit (skipChar l3) of
                              (es, l') \<Rightarrow> (True, s1 @ lookChar l3 # es, l'))
                      else (real1, s1, l3))
               in if isValid l4 \<and> \<not> isspace (lookChar l4)
                  then (l, State_error ''Not a number'' m)
                  else if \<not> real2 then
                    (case toBaseInteger s2 base m of
                       Halt h \<Rightarrow> (l4, Halt h)
                     | Err m1 \<Rightarrow> (l, Err m1)
                     | Ok il m1 \<Rightarrow>
                         (case make_shared (NumberToken (INTEGER_TYPE (ucast (scast sign * il)))) m1 of
                            (token, m2) \<Rightarrow> (l4, Ok token m2)))
                  else
                    (case make_shared (NumberToken (REAL_TYPE
                            (d_times pf (double_of_int pf sign) (d_atof pf s2)))) m of
                       (token, m2) \<Rightarrow> (l4, Ok token m2)))))"

text \<open>\<^verbatim>\<open>readNumberToken(std::string &word, NumberTokenP &token)\<close>.\<close>

definition readNumberToken_word :: "'d platform \<Rightarrow> string \<Rightarrow> 'd machine \<Rightarrow> (addr, 'd machine) res" where
  "readNumberToken_word pf word m = snd (readNumberToken pf \<lparr>str = word, pos = 0\<rparr> m)"

text \<open>
  A character that \<^verbatim>\<open>isBaseChar\<close> accepts in the base and that is neither a sign nor
  NUL: what \<^verbatim>\<open>toBaseString\<close> takes from \<^verbatim>\<open>base_chars\<close>.
\<close>

definition plain_digit :: "int32 \<Rightarrow> char \<Rightarrow> bool" where
  "plain_digit base c = (isBaseChar c base \<noteq> None \<and> c \<notin> {CHR ''+'', CHR ''-'', CHR 0x00})"

text \<open>
  The number a string of digits stands for in a base, read from the left on top of the value
  \<open>acc\<close>: what the loop of \<^verbatim>\<open>toBaseInteger\<close> computes when nothing overflows.
\<close>

definition digits_value :: "int32 \<Rightarrow> int \<Rightarrow> string \<Rightarrow> int" where
  "digits_value base acc cs =
     foldl (\<lambda>a c. a * sint base + sint (the (isBaseChar c base))) acc cs"


section \<open>The state at program start\<close>

text \<open>
  The initial values of the globals: empty stacks and dictionaries, no open file, no line,
  \<^verbatim>\<open>State::lastError_ = State(false, "Unknown Error")\<close>. The store holds no object yet;
  what lies at the addresses not handed out is immaterial.
\<close>

definition initial :: "'d machine" where
  "initial =
     \<lparr>heap = (\<lambda>a. BooleanToken False), brk = 0, debug = False, ignore_base = False,
      input_file = \<lparr>fp_open = False, fp_rest = [], fp_eof = False\<rparr>, lines = [],
      line = \<lparr>str = [], pos = 0\<rparr>, tokens = [], execTokens = [], retTokens = [],
      variables = Map.empty, procedures = Map.empty, currentVar = None,
      lastError = State False ''Unknown Error'', out = []\<rparr>"

text \<open>\<^verbatim>\<open>init()\<close> up to the point where it looks for the file \<^verbatim>\<open>.CForth\<close>.\<close>

definition init :: "'d machine \<Rightarrow> 'd machine" where
  "init m = snd (defineVariable_int ''BASE'' 10 m)"


text \<open>
  A platform to run examples on: no doubles (the carrier is \<open>unit\<close>), and an object's
  machine address is its address in the store.
\<close>

definition example_platform :: "unit platform" where
  "example_platform =
     \<lparr>address_of = of_nat, int_of_double = (\<lambda>d. 0), double_of_int = (\<lambda>i. ()),
      d_plus = (\<lambda>a b. ()), d_minus = (\<lambda>a b. ()), d_times = (\<lambda>a b. ()),
      d_divide = (\<lambda>a b. ()), d_less = (\<lambda>a b. False), d_eq = (\<lambda>a b. True),
      d_atof = (\<lambda>s. ())\<rparr>"

section \<open>Example machines\<close>

text \<open>The machine a call that returned \<^verbatim>\<open>State::success()\<close> leaves behind.\<close>

definition returned :: "('a, 'm) res \<Rightarrow> 'm option" where
  "returned r = (case r of Ok a m \<Rightarrow> Some m | Err m \<Rightarrow> None | Halt h \<Rightarrow> None)"

text \<open>After \<^verbatim>\<open>init()\<close> and the words \<^verbatim>\<open>v BASE\<close>: ready for \<^verbatim>\<open>!\<close>.\<close>

definition store_base_example :: "int32 \<Rightarrow> 'd machine" where
  "store_base_example v =
     (let m = init initial in
      case lookupVariable ''BASE'' m of
        Some b \<Rightarrow> pushToken b (pushInteger v m)
      | None \<Rightarrow> m)"

text \<open>
  After \<^verbatim>\<open>VARIABLE X\<close> and \<^verbatim>\<open>X 1 +\<close>: a reference into \<^verbatim>\<open>X\<close> on the stack.
\<close>

definition ref_example :: "'d machine" where
  "ref_example =
     (case defineVariable_int ''X'' 0 initial of (x, m1) \<Rightarrow>
        case indexVar x 1 m1 of (r, m2) \<Rightarrow> pushToken r m2)"

text \<open>After \<^verbatim>\<open>VARIABLE X\<close>, in the line \<^verbatim>\<open>FORGET X\<close> behind the word \<^verbatim>\<open>FORGET\<close>.\<close>

definition forget_example :: "'d machine" where
  "forget_example =
     (snd (defineVariable_int ''X'' 0 initial))\<lparr>line := \<lparr>str = ''FORGET X'', pos = 7\<rparr>\<rparr>"

text \<open>
  Before \<^verbatim>\<open>DoBuiltin::exec\<close> in \<^verbatim>\<open>3 0 DO ... LOOP\<close>: the DO built-in at 0 with its
  body, a list of the tokens \<^verbatim>\<open>I\<close> (at 1) and \<^verbatim>\<open>.\<close> (at 2), the limit 3 (at 3) and
  the start 0 (at 4) on the parameter stack, the DO built-in on the stack of running blocks.
\<close>

definition loop_example :: "addr list \<Rightarrow> unit machine" where
  "loop_example body =
     initial\<lparr>heap := (\<lambda>a. BooleanToken False)
                (0 := Builtin (Control DO_BUILTIN) (DoTokens body False False),
                 1 := Builtin (Control I_BUILTIN) NoValue,
                 2 := Builtin (InputOutput PRINT_BUILTIN) NoValue,
                 3 := NumberToken (INTEGER_TYPE 3),
                 4 := NumberToken (INTEGER_TYPE 0)),
             brk := 5, tokens := [3, 4], execTokens := [0]\<rparr>"

text \<open>
  \<^verbatim>\<open>execToken\<close> for the tokens \<^verbatim>\<open>I\<close> and \<^verbatim>\<open>.\<close>. Both are built-ins and no
  blocks, so the call is the \<^verbatim>\<open>Exec:\<close> line of debug mode and then
  \<^verbatim>\<open>token->exec()\<close>. No other token is executed in the example.
\<close>

definition loop_example_execToken ::
  "addr \<Rightarrow> 'd machine \<Rightarrow> (unit, 'd machine) res option"
where
  "loop_example_execToken token m =
     (let m1 = (if debug m then debug_token ''Exec: '' token m else m) in
      if heap m token = Builtin (Control I_BUILTIN) NoValue then Some (IBuiltin_exec m1)
      else if heap m token = Builtin (InputOutput PRINT_BUILTIN) NoValue
      then Some (PrintBuiltin_exec m1)
      else None)"

section \<open>Properties\<close>

text \<open>The equations that run a concrete machine through the embedded functions.\<close>

lemmas run_defs =
  initial_def init_def pushInteger_def pushNumber_def pushBoolean_def pushToken_def
  make_shared_def popToken_def popTokens_def popNumber_def popNumbers_def tokenToNumber_def
  and_then_def State_error_def defineVariable_int_def defineVariable_token_def
  defineVariable_def addValue_def lookupVariable_def value_def Variable_indValue_def
  getInteger_def getBase_def int_min_def int_max_def

lemmas store_defs =
  store_base_example_def StoreBuiltin_exec_def isVarRef_def setValue_def
  Variable_setIndValue_def

lemmas word_defs =
  ForgetBuiltin_exec_def readWord_def fillBuffer_def readWord_line_def skipSpace_def
  getChars_def lookChar_def skipChar_def isValid_def isspace_def forgetVariable_def
  forgetProcedure_def lookupProcedure_def

lemmas parse_defs =
  readNumberToken_word_def readNumberToken_def isOneOf_def lookChar_def skipChar_def
  getChars_def isValid_def isspace_def lookNextChar_def isBaseChar_def base_chars_def
  islower_def toupper_def toBaseInteger_def long_divide_def INT_MAX_def INT_MIN_def

subsection \<open>DECIMAL\<close>

lemma DecimalBuiltin_exec_defined:
  "lookupVariable ''BASE'' m = Some v \<Longrightarrow> DecimalBuiltin_exec m = Ok () m"
  by (simp add: DecimalBuiltin_exec_def)

lemma DecimalBuiltin_exec_absent:
  "lookupVariable ''BASE'' m = None \<Longrightarrow> \<not> ignore_base m \<Longrightarrow>
   \<exists>m'. DecimalBuiltin_exec m = Ok () m' \<and> getBase pf m' = Inr 10"
  by (auto simp: DecimalBuiltin_exec_def run_defs Let_def split: option.splits)

text \<open>
  Claim C1 says that DECIMAL sets BASE to 10, so that BASE reads 10 after
  \<^verbatim>\<open>16 BASE !\<close> and DECIMAL. \<^verbatim>\<open>DecimalBuiltin::exec\<close> defines BASE as 10 when no
  variable of that name exists and does nothing otherwise: after \<^verbatim>\<open>16 BASE !\<close> the base
  reads 16, DECIMAL returns success with the machine unchanged, and the base still reads 16.
\<close>

theorem DecimalBuiltin_exec_keeps_16:
  "\<exists>m. StoreBuiltin_exec (store_base_example 16) = Ok () m \<and>
        getBase pf m = Inr 16 \<and>
        DecimalBuiltin_exec m = Ok () m"
  by (simp add: store_defs DecimalBuiltin_exec_def run_defs)

subsection \<open>?DUP\<close>

text \<open>
  Claim C2 says that ?DUP adds a copy of a nonzero integer \<open>n\<close> on top and leaves the stack
  as it is when \<open>n\<close> is zero. \<^verbatim>\<open>QDupBuiltin::exec\<close> pops \<open>n\<close> and pushes it once when it
  is nonzero: on a stack \<open>ts @ [a]\<close> whose top holds the integer \<open>n\<close> it leaves \<open>ts\<close> with
  one new token for \<open>n\<close> (the depth it found, no copy added) when \<open>n\<close> is nonzero, and
  \<open>ts\<close> (one token fewer) when \<open>n\<close> is zero.
\<close>

theorem QDupBuiltin_exec_Integer:
  assumes "tokens m = ts @ [a]" and "heap m a = NumberToken (INTEGER_TYPE n)"
  shows "\<exists>m'. QDupBuiltin_exec pf m = Ok () m' \<and>
           (if n \<noteq> 0
            then tokens m' = ts @ [brk m] \<and> heap m' (brk m) = NumberToken (INTEGER_TYPE n)
            else tokens m' = ts)"
  using assms
  by (simp add: QDupBuiltin_exec_def popNumber_def popToken_def tokenToNumber_def and_then_def
      pushNumber_def pushToken_def make_shared_def debug_token_def Let_def)

theorem QDupBuiltin_exec_Integer_witness:
  "tokens (pushInteger 5 initial :: unit machine) = [] @ [0] \<and>
   heap (pushInteger 5 initial :: unit machine) 0 = NumberToken (INTEGER_TYPE 5) \<and>
   (\<exists>m'. QDupBuiltin_exec example_platform (pushInteger 5 initial) = Ok () m' \<and>
          tokens m' = [1] \<and> heap m' 1 = NumberToken (INTEGER_TYPE 5))"
  using QDupBuiltin_exec_Integer
    [of "pushInteger 5 initial :: unit machine" "[]" 0 5 example_platform]
  by (simp add: run_defs)

lemma QDupBuiltin_exec_zero_example:
  "\<exists>m'. QDupBuiltin_exec pf (pushInteger 0 initial) = Ok () m' \<and> tokens m' = []"
  by (simp add: QDupBuiltin_exec_def run_defs)

subsection \<open>FORGET\<close>

lemma ForgetBuiltin_exec_never_Ok: "\<exists>m'. ForgetBuiltin_exec m = Err m'"
  by (auto simp: ForgetBuiltin_exec_def State_error_def lookupVariable_def forgetVariable_def
      Let_def lookupProcedure_def forgetProcedure_def split: prod.splits option.splits if_splits)

text \<open>
  Claim C3 says that FORGET reports an error exactly when the name has no binding, and pops
  the latest binding and succeeds otherwise. \<^verbatim>\<open>ForgetBuiltin::exec\<close> returns an error when
  \<^verbatim>\<open>forgetVariable\<close> (or \<^verbatim>\<open>forgetProcedure\<close>) returns true, that is when it has popped
  the binding: after \<^verbatim>\<open>VARIABLE X\<close>, \<^verbatim>\<open>FORGET X\<close> pops the binding of \<^verbatim>\<open>X\<close> and
  returns the error \<^verbatim>\<open>Unknown variable\<close>.
\<close>

theorem ForgetBuiltin_exec_bound_name:
  "lookupVariable ''X'' (forget_example :: 'd machine) = Some 1 \<and>
   (\<exists>m'. ForgetBuiltin_exec (forget_example :: 'd machine) = Err m' \<and>
          lastError m' = State False ''Unknown variable'' \<and>
          lookupVariable ''X'' m' = None)"
  by (simp add: forget_example_def word_defs run_defs)

subsection \<open>Reading the base\<close>

text \<open>
  Claim C4, as amended. When the current cell of BASE holds the integer \<open>v\<close>, reading the
  base yields a value in \<open>[2, 36]\<close>; outside the debug output (which reads 10) it is \<open>v\<close>
  clamped to that interval: 2 when \<open>v < 2\<close>, 36 when \<open>v > 36\<close>, and \<open>v\<close> otherwise.
\<close>

theorem getBase_clamped:
  assumes "lookupVariable ''BASE'' m = Some b" and "value m b = Some t"
    and "heap m t = NumberToken (INTEGER_TYPE v)"
  shows "\<exists>base. getBase pf m = Inr base \<and> 2 \<le> sint base \<and> sint base \<le> 36 \<and>
           (\<not> ignore_base m \<longrightarrow>
              base = (if sint v < 2 then 2 else if 36 < sint v then 36 else v))"
  using assms by (simp add: getBase_def getInteger_def int_min_def int_max_def)

theorem getBase_clamped_witness:
  "lookupVariable ''BASE'' (snd (defineVariable_int ''BASE'' 1 initial) :: unit machine) = Some 1 \<and>
   value (snd (defineVariable_int ''BASE'' 1 initial) :: unit machine) 1 = Some 0 \<and>
   heap (snd (defineVariable_int ''BASE'' 1 initial) :: unit machine) 0 =
     NumberToken (INTEGER_TYPE 1) \<and>
   getBase example_platform (snd (defineVariable_int ''BASE'' 1 initial)) = Inr 2"
  using getBase_clamped
    [of "snd (defineVariable_int ''BASE'' 1 initial) :: unit machine" 1 0 1 example_platform]
  by (simp add: run_defs)

text \<open>
  The claim as stated fails: after \<^verbatim>\<open>100 BASE !\<close> the base reads 36, not 10.
\<close>

theorem getBase_100_counterexample:
  "map_option (getBase example_platform) (returned (StoreBuiltin_exec (store_base_example 100)))
     = Some (Inr 36) \<and> (36 :: int32) \<noteq> 10"
  by (simp add: returned_def store_defs run_defs)

subsection \<open>Printing and parsing in a base\<close>

lemma base_chars_find:
  assumes "k < 36"
  shows "find_char base_chars (base_chars ! k) = Some k \<and> \<not> islower (base_chars ! k) \<and>
         base_chars ! k \<notin> {CHR ''+'', CHR ''-'', CHR 0x00}"
proof -
  have "\<forall>(k, c)\<in>set (enumerate 0 base_chars).
          find_char base_chars c = Some k \<and> \<not> islower c \<and> c \<notin> {CHR ''+'', CHR ''-'', CHR 0x00}"
    by (simp add: base_chars_def islower_def)
  moreover have "length base_chars = 36"
    by (simp add: base_chars_def)
  then have "(k, base_chars ! k) \<in> set (enumerate 0 base_chars)"
    using assms by (simp add: in_set_enumerate_eq)
  ultimately show ?thesis by blast
qed

lemma base_chars_digit:
  assumes "int k < sint base" and "2 \<le> sint base" and "sint base \<le> 36"
  shows "isBaseChar (base_chars ! k) base = Some (of_nat k)"
proof -
  have "k < 36" using assms by simp
  from base_chars_find [OF this] assms show ?thesis
    by (simp add: isBaseChar_def Let_def) (simp add: base_chars_def)?
qed

lemma minus_not_digit: "isBaseChar CHR ''-'' base = None"
  by (simp add: isBaseChar_def islower_def base_chars_def)


lemma sint_divide_modulo:
  assumes "0 \<le> sint x" and "2 \<le> sint base"
  shows "sint (int_divide x base) = sint x div sint base"
    and "sint (int_modulo x base) = sint x mod sint base"
proof -
  have up: "sint x < 2 ^ 31" "sint base < 2 ^ 31"
    using sint_lt [of x] sint_lt [of base] by simp_all
  have q: "sint x sdiv sint base = sint x div sint base"
    using assms by (simp add: signed_divide_int_def sgn_if)
  have r: "sint x smod sint base = sint x mod sint base"
    using assms by (simp add: signed_modulo_int_def sgn_if)
  have d: "0 \<le> sint x div sint base"
    using assms by (simp add: pos_imp_zdiv_nonneg_iff)
  have "sint x div sint base \<le> sint x"
  proof (cases "sint x = 0")
    case True
    then show ?thesis by simp
  next
    case False
    with assms have "0 < sint x" by simp
    then show ?thesis by (rule int_div_le_self)
  qed
  note d = d this
  have m: "0 \<le> sint x mod sint base" "sint x mod sint base < sint base"
    using assms by simp_all
  show "sint (int_divide x base) = sint x div sint base"
    using d up by (simp add: int_divide_def q sint_sbintrunc' signed_take_bit_int_eq_self)
  show "sint (int_modulo x base) = sint x mod sint base"
    using m up by (simp add: int_modulo_def r sint_sbintrunc' signed_take_bit_int_eq_self)
qed

lemma base_chars_plain_digit:
  assumes "0 \<le> k" and "k < sint base" and "2 \<le> sint base" and "sint base \<le> 36"
  shows "plain_digit base (base_chars ! nat k)"
proof -
  have "nat k < 36" using assms by simp
  from base_chars_find [OF this]
    base_chars_digit [of "nat k" base] assms
  show ?thesis by (simp add: plain_digit_def)
qed

lemma toBaseString_loop_digits:
  assumes "2 \<le> sint base" and "sint base \<le> 36" and "0 \<le> sint x"
  shows "\<exists>ds x'. toBaseString_loop base x s = (x', ds @ s) \<and> 0 \<le> sint x' \<and> sint x' < sint base \<and>
           (\<forall>c\<in>set ds. plain_digit base c)"
  using assms
proof (induction base x s rule: toBaseString_loop.induct)
  case (1 base x s)
  show ?case
  proof (cases "sint x \<ge> sint base")
    case False
    with "1.prems" have "toBaseString_loop base x s = (x, [] @ s)"
      by (subst toBaseString_loop.simps) simp
    with False "1.prems" show ?thesis
      by (intro exI [of _ "[]"] exI [of _ x]) simp
  next
    case True
    let ?c = "base_chars ! nat (sint (int_modulo x base))"
    have dm: "sint (int_divide x base) = sint x div sint base"
      "sint (int_modulo x base) = sint x mod sint base"
      using sint_divide_modulo [of x base] "1.prems" by simp_all
    have c: "plain_digit base ?c"
      using "1.prems" dm by (intro base_chars_plain_digit) simp_all
    have "0 \<le> sint (int_divide x base)"
      using dm "1.prems" by (simp add: pos_imp_zdiv_nonneg_iff)
    with "1.IH" True "1.prems" obtain ds x' where
      r: "toBaseString_loop base (int_divide x base) (?c # s) = (x', ds @ ?c # s)"
      and x': "0 \<le> sint x'" "sint x' < sint base" and ds: "\<forall>c\<in>set ds. plain_digit base c"
      by blast
    have "toBaseString_loop base x s = (x', (ds @ [?c]) @ s)"
      using True "1.prems" r by (subst toBaseString_loop.simps) simp
    with x' ds c show ?thesis
      by (intro exI [of _ "ds @ [?c]"] exI [of _ x']) simp
  qed
qed


lemma sint_uminus:
  fixes n :: int32
  assumes "sint n \<noteq> - (2 ^ 31)"
  shows "sint (- n) = - sint n"
proof -
  have "- (2 ^ 31) \<le> sint n" "sint n < 2 ^ 31"
    using sint_ge [of n] sint_lt [of n] by simp_all
  with assms have r: "- (2 ^ 31) \<le> - sint n" "- sint n < 2 ^ 31" by linarith+
  have "- n = (word_of_int (- sint n) :: int32)" by simp
  then have "sint (- n) = signed_take_bit 31 (- sint n)"
    by (simp only: sint_sbintrunc') simp
  with r show ?thesis by (simp add: signed_take_bit_int_eq_self)
qed

lemma toBaseString_negative:
  assumes "2 \<le> sint base" and "sint base \<le> 36" and "sint n < 0" and "INT_MIN < sint n"
  shows "\<exists>d ds. toBaseString base n = Inr (d # ds @ ''-'') \<and> plain_digit base d \<and>
           (\<forall>c\<in>set ds. plain_digit base c)"
proof -
  have neg: "sint (- n) = - sint n"
    using assms(4) by (intro sint_uminus) (simp add: INT_MIN_def)
  with assms(3) have "0 \<le> sint (- n)" by simp
  from toBaseString_loop_digits [OF assms(1,2) this, of "''-''"] obtain ds x' where
    r: "toBaseString_loop base (- n) ''-'' = (x', ds @ ''-'')"
    and x': "0 \<le> sint x'" "sint x' < sint base" and ds: "\<forall>c\<in>set ds. plain_digit base c"
    by blast
  have d: "plain_digit base (base_chars ! nat (sint x'))"
    using x' assms(1,2) by (intro base_chars_plain_digit) simp_all
  have "toBaseString base n = Inr (base_chars ! nat (sint x') # ds @ ''-'')"
    using assms(1,2,3) r x' by (simp add: toBaseString_def base_chars_def)
  with d ds show ?thesis by blast
qed

lemma takeWhile_digits:
  assumes "\<forall>c\<in>set xs. P c" and "\<not> P y"
  shows "takeWhile P (xs @ y # ys) = xs"
  using assms by (induction xs) simp_all

lemma readNumberToken_trailing_minus:
  assumes base: "getBase pf m = Inr base"
    and d: "plain_digit base d" and ds: "\<forall>c\<in>set ds. plain_digit base c"
  shows "readNumberToken_word pf (d # ds @ ''-'') m =
           Err (m\<lparr>lastError := State False ''Not a number''\<rparr>)"
proof -
  let ?digit = "\<lambda>c. isBaseChar c base \<noteq> None"
  let ?l = "\<lparr>str = d # ds @ ''-'', pos = 0\<rparr>"
  have nd: "\<not> ?digit CHR ''-''"
    by (simp add: isBaseChar_def islower_def base_chars_def)
  have "\<forall>c\<in>set (d # ds). ?digit c"
    using d ds by (simp add: plain_digit_def)
  then have tw: "takeWhile ?digit ((d # ds) @ CHR ''-'' # []) = d # ds"
    using nd by (rule takeWhile_digits)
  have first: "d \<noteq> CHR ''+''" "d \<noteq> CHR ''-''" "d \<noteq> CHR 0x00" "?digit d"
    using d by (simp_all add: plain_digit_def)
  have sign: "isOneOf ''+-'' ?l = False"
    using first by (simp add: isOneOf_def lookChar_def)
  have look: "lookChar ?l = d"
    by (simp add: lookChar_def)
  have gc: "getChars ?digit ?l = (d # ds, \<lparr>str = d # ds @ ''-'', pos = Suc (length ds)\<rparr>)"
    using tw by (simp add: getChars_def)
  let ?l2 = "\<lparr>str = d # ds @ ''-'', pos = Suc (length ds)\<rparr>"
  have l2: "isValid ?l2" "lookChar ?l2 = CHR ''-''"
    by (simp_all add: isValid_def lookChar_def nth_append)
  have e: "isOneOf ''Ee'' ?l2 = False"
    by (simp add: isOneOf_def l2)
  have sp: "\<not> isspace CHR ''-''"
    by (simp add: isspace_def)
  show ?thesis
    unfolding readNumberToken_word_def readNumberToken_def
    by (simp only: base sum.case sign look gc l2 e sp first Let_def if_False if_True not_False_eq_True
        not_True_eq_False prod.case simp_thms snd_conv State_error_def char.inject) 
qed

text \<open>
  For a number that is not negative the two functions do agree: \<^verbatim>\<open>toBaseString\<close> gives a string
  of digits of the base whose value is the number, and \<^verbatim>\<open>readNumberToken\<close> reads such a string
  back to a new number token holding that value.
\<close>

lemma sint_long_of_int:
  assumes "- (2 ^ 63) \<le> z" and "z < 2 ^ 63"
  shows "sint (word_of_int z :: long) = z"
  using assms by (simp add: sint_sbintrunc' signed_take_bit_int_eq_self)

lemma sint_int_of_nat:
  assumes "k < 36"
  shows "sint (of_nat k :: int32) = int k"
proof -
  have "(of_nat k :: int32) = word_of_int (int k)" by simp
  then have "sint (of_nat k :: int32) = signed_take_bit 31 (int k)"
    by (simp only: sint_sbintrunc') simp
  with assms show ?thesis by (simp add: signed_take_bit_int_eq_self)
qed

lemma length_base_chars: "length base_chars = 36"
  by (simp add: base_chars_def)

lemma isBaseChar_range:
  assumes "isBaseChar c base = Some v"
  shows "0 \<le> sint v \<and> sint v < sint base"
proof -
  from assms have b: "sint base \<le> 36"
    by (simp add: isBaseChar_def length_base_chars split: if_splits)
  from assms have "\<exists>p. int p < sint base \<and> v = of_nat p"
    by (force simp add: isBaseChar_def Let_def length_base_chars not_le
        split: if_splits option.splits)
  then obtain p where p: "int p < sint base" "v = of_nat p"
    by blast
  with b have "p < 36" by simp
  from sint_int_of_nat [OF this] p show ?thesis by simp
qed

lemma digits_value_mono:
  assumes "1 \<le> sint base" and "\<forall>c\<in>set cs. isBaseChar c base \<noteq> None" and "0 \<le> acc"
  shows "acc \<le> digits_value base acc cs"
  using assms(2,3)
proof (induction cs arbitrary: acc)
  case Nil
  then show ?case by (simp add: digits_value_def)
next
  case (Cons c cs)
  then obtain v where v: "isBaseChar c base = Some v" by auto
  from isBaseChar_range [OF v] have r: "0 \<le> sint v" by simp
  have "acc * 1 \<le> acc * sint base"
    using Cons.prems(2) assms(1) by (intro mult_left_mono) simp_all
  with r have le: "acc \<le> acc * sint base + sint v" by simp
  with Cons.prems(2) have "0 \<le> acc * sint base + sint v" by simp
  from Cons.IH [OF _ this] Cons.prems(1)
  have "acc * sint base + sint v \<le> digits_value base (acc * sint base + sint v) cs" by simp
  with le show ?case by (simp add: digits_value_def v)
qed

lemma toBaseInteger_step:
  fixes base v :: int32
  assumes "2 \<le> sint base" and "sint base \<le> 36" and "0 \<le> acc" and "acc < 2 ^ 31"
    and "0 \<le> sint v" and "sint v < sint base"
  shows "scast base * (word_of_int acc :: long) + scast v = word_of_int (acc * sint base + sint v)"
    and "long_divide (scast base * (word_of_int acc :: long) + scast v - scast v) (scast base)
           = word_of_int acc"
proof -
  have "scast base * (word_of_int acc :: long) + scast v = word_of_int (sint base * acc + sint v)"
    by (simp only: scast_eq wi_hom_mult wi_hom_add)
  then show i1: "scast base * (word_of_int acc :: long) + scast v = word_of_int (acc * sint base + sint v)"
    by (simp only: mult.commute)
  have "sint base * acc \<le> 36 * acc"
    using assms(2,3) by (intro mult_right_mono) simp_all
  with assms(4) have prod_lt: "sint base * acc < 2 ^ 63" by simp
  have prod_ge: "0 \<le> sint base * acc"
    using assms(1,3) by simp
  have "scast base * (word_of_int acc :: long) + scast v - scast v = word_of_int (sint base * acc)"
    by (simp only: scast_eq wi_hom_mult add_diff_cancel_right')
  moreover have "sint (word_of_int (sint base * acc) :: long) = sint base * acc"
    using prod_lt prod_ge by (intro sint_long_of_int) simp_all
  ultimately have s1: "sint (scast base * (word_of_int acc :: long) + scast v - scast v) = sint base * acc"
    by (simp only:)
  have "sint (word_of_int (sint base) :: long) = sint base"
    using sint_ge [of base] sint_lt [of base] by (intro sint_long_of_int) simp_all
  then have sb: "sint (scast base :: long) = sint base"
    by (simp only: scast_eq)
  have q: "(sint base * acc) sdiv sint base = acc"
    using assms(1,3) by (simp add: signed_divide_int_def sgn_if)
  show "long_divide (scast base * (word_of_int acc :: long) + scast v - scast v) (scast base)
               = word_of_int acc"
    by (simp only: long_divide_def s1 sb q)
qed


lemma toBaseInteger_loop_value:
  assumes "2 \<le> sint base" and "sint base \<le> 36"
    and "\<forall>c\<in>set cs. isBaseChar c base \<noteq> None" and "0 \<le> acc"
    and "digits_value base acc cs < 2 ^ 31"
  shows "toBaseInteger_loop cs base (word_of_int acc) m =
           Ok (word_of_int (digits_value base acc cs)) m"
  using assms(3,4,5)
proof (induction cs arbitrary: acc)
  case Nil
  then show ?case by (simp add: digits_value_def)
next
  case (Cons c cs)
  then obtain v where v: "isBaseChar c base = Some v" by auto
  from isBaseChar_range [OF v] have r: "0 \<le> sint v" "sint v < sint base" by simp_all
  let ?a1 = "acc * sint base + sint v"
  have a1: "0 \<le> ?a1" using r Cons.prems(2) assms(1) by simp
  have dv: "digits_value base acc (c # cs) = digits_value base ?a1 cs"
    by (simp add: digits_value_def v)
  have "?a1 \<le> digits_value base ?a1 cs"
    using assms(1) Cons.prems(1) a1 by (intro digits_value_mono) simp_all
  with Cons.prems(3) dv have a1_lt: "?a1 < 2 ^ 31" by simp
  have "acc * 2 \<le> acc * sint base"
    using Cons.prems(2) assms(1) by (intro mult_left_mono) simp_all
  with a1_lt r have acc_lt: "acc < 2 ^ 31" by simp
  note st = toBaseInteger_step [OF assms(1,2) Cons.prems(2) acc_lt r]
  have IH: "toBaseInteger_loop cs base (word_of_int ?a1) m =
              Ok (word_of_int (digits_value base ?a1 cs)) m"
    using Cons.IH [OF _ a1] Cons.prems(1,3) dv by simp
  note st2 = st(2) [unfolded st(1)]
  show ?case
    by (simp only: toBaseInteger_loop.simps v option.case Let_def st(1) st2 IH dv if_False
        simp_thms)
qed

lemma digit_value_base_chars:
  assumes "0 \<le> k" and "k < sint base" and "2 \<le> sint base" and "sint base \<le> 36"
  shows "sint (the (isBaseChar (base_chars ! nat k) base)) = k"
proof -
  have "nat k < 36" using assms by simp
  from sint_int_of_nat [OF this] base_chars_digit [of "nat k" base] assms
  show ?thesis by simp
qed

lemma digits_value_snoc:
  "digits_value base acc (cs @ [c]) =
     digits_value base acc cs * sint base + sint (the (isBaseChar c base))"
  by (simp add: digits_value_def)

lemma toBaseString_loop_value:
  assumes "2 \<le> sint base" and "sint base \<le> 36" and "0 \<le> sint x"
  shows "\<exists>ds x'. toBaseString_loop base x s = (x', ds @ s) \<and> 0 \<le> sint x' \<and> sint x' < sint base \<and>
           (\<forall>c\<in>set ds. plain_digit base c) \<and>
           (\<forall>acc. digits_value base acc (base_chars ! nat (sint x') # ds) =
                    acc * sint base ^ Suc (length ds) + sint x)"
  using assms
proof (induction base x s rule: toBaseString_loop.induct)
  case (1 base x s)
  show ?case
  proof (cases "sint x \<ge> sint base")
    case False
    with "1.prems" have l: "toBaseString_loop base x s = (x, [] @ s)"
      by (subst toBaseString_loop.simps) simp
    have "sint (the (isBaseChar (base_chars ! nat (sint x)) base)) = sint x"
      using False "1.prems" by (intro digit_value_base_chars) simp_all
    then have "\<forall>acc. digits_value base acc (base_chars ! nat (sint x) # []) =
                 acc * sint base ^ Suc (length ([] :: string)) + sint x"
      by (simp add: digits_value_def)
    with l False "1.prems" show ?thesis
      by (intro exI [of _ "[]"] exI [of _ x]) simp
  next
    case True
    let ?c = "base_chars ! nat (sint (int_modulo x base))"
    have dm: "sint (int_divide x base) = sint x div sint base"
      "sint (int_modulo x base) = sint x mod sint base"
      using sint_divide_modulo [of x base] "1.prems" by simp_all
    have c: "plain_digit base ?c"
      using "1.prems" dm by (intro base_chars_plain_digit) simp_all
    have cv: "sint (the (isBaseChar ?c base)) = sint x mod sint base"
      using "1.prems" dm digit_value_base_chars [of "sint x mod sint base" base] by simp
    have "0 \<le> sint (int_divide x base)"
      using dm "1.prems" by (simp add: pos_imp_zdiv_nonneg_iff)
    with "1.IH" True "1.prems" obtain ds x' where
      r: "toBaseString_loop base (int_divide x base) (?c # s) = (x', ds @ ?c # s)"
      and x': "0 \<le> sint x'" "sint x' < sint base" and ds: "\<forall>c\<in>set ds. plain_digit base c"
      and v: "\<forall>acc. digits_value base acc (base_chars ! nat (sint x') # ds) =
                    acc * sint base ^ Suc (length ds) + sint (int_divide x base)"
      by blast
    have l: "toBaseString_loop base x s = (x', (ds @ [?c]) @ s)"
      using True "1.prems" r by (subst toBaseString_loop.simps) simp
    have "digits_value base acc (base_chars ! nat (sint x') # ds @ [?c]) =
            acc * sint base ^ Suc (length (ds @ [?c])) + sint x" for acc
    proof -
      have "digits_value base acc ((base_chars ! nat (sint x') # ds) @ [?c]) =
              (acc * sint base ^ Suc (length ds) + sint x div sint base) * sint base +
              sint x mod sint base"
        by (simp only: digits_value_snoc v cv cv [unfolded dm(2)] dm)
      also have "\<dots> = acc * sint base ^ Suc (length (ds @ [?c])) +
              (sint x div sint base * sint base + sint x mod sint base)"
        by (simp add: algebra_simps)
      finally show ?thesis by simp
    qed
    with l x' ds c show ?thesis
      by (intro exI [of _ "ds @ [?c]"] exI [of _ x']) simp
  qed
qed

lemma toBaseString_nonneg:
  assumes "2 \<le> sint base" and "sint base \<le> 36" and "0 \<le> sint n"
  shows "\<exists>d ds. toBaseString base n = Inr (d # ds) \<and> plain_digit base d \<and>
           (\<forall>c\<in>set ds. plain_digit base c) \<and> digits_value base 0 (d # ds) = sint n"
proof -
  from toBaseString_loop_value [OF assms, of "[]"] obtain ds x' where
    r: "toBaseString_loop base n [] = (x', ds @ [])"
    and x': "0 \<le> sint x'" "sint x' < sint base" and ds: "\<forall>c\<in>set ds. plain_digit base c"
    and v: "\<forall>acc. digits_value base acc (base_chars ! nat (sint x') # ds) =
                    acc * sint base ^ Suc (length ds) + sint n"
    by blast
  have d: "plain_digit base (base_chars ! nat (sint x'))"
    using x' assms(1,2) by (intro base_chars_plain_digit) simp_all
  have "toBaseString base n = Inr (base_chars ! nat (sint x') # ds)"
    using assms r x' by (simp add: toBaseString_def length_base_chars)
  moreover from v have "digits_value base 0 (base_chars ! nat (sint x') # ds) = sint n"
    by simp
  ultimately show ?thesis using d ds by blast
qed

lemma readNumberToken_digits:
  assumes base: "getBase pf m = Inr base"
    and d: "plain_digit base d" and ds: "\<forall>c\<in>set ds. plain_digit base c"
  shows "readNumberToken_word pf (d # ds) m =
           (case toBaseInteger (d # ds) base m of
              Halt h \<Rightarrow> Halt h
            | Err m1 \<Rightarrow> Err m1
            | Ok il m1 \<Rightarrow>
                (case make_shared (NumberToken (INTEGER_TYPE (ucast (scast (1 :: int32) * il)))) m1 of
                   (token, m2) \<Rightarrow> Ok token m2))"
proof -
  let ?digit = "\<lambda>c. isBaseChar c base \<noteq> None"
  let ?l = "\<lparr>str = d # ds, pos = 0\<rparr>"
  let ?l2 = "\<lparr>str = d # ds, pos = Suc (length ds)\<rparr>"
  have "\<forall>c\<in>set (d # ds). ?digit c"
    using d ds by (simp add: plain_digit_def)
  then have tw: "takeWhile ?digit (d # ds) = d # ds"
    by (simp only: takeWhile_eq_all_conv)
  have first: "d \<noteq> CHR ''+''" "d \<noteq> CHR ''-''" "d \<noteq> CHR 0x00" "?digit d"
    using d by (simp_all add: plain_digit_def)
  have sign: "isOneOf ''+-'' ?l = False"
    using first by (simp add: isOneOf_def lookChar_def)
  have look: "lookChar ?l = d"
    by (simp add: lookChar_def)
  have gc: "getChars ?digit ?l = (d # ds, ?l2)"
    unfolding getChars_def Let_def
    by (simp only: Line.select_convs drop_0 tw Line.update_convs list.size length_Cons add_0 plus_nat.add_0) simp
  have l2: "isValid ?l2 = False"
    by (simp add: isValid_def)
  show ?thesis
    unfolding readNumberToken_word_def readNumberToken_def
    by (simp only: base sum.case sign look gc l2 first Let_def if_False if_True
        not_False_eq_True not_True_eq_False prod.case simp_thms snd_conv)
      (simp split: res.splits prod.splits)
qed

lemma ucast_long_of_sint:
  fixes n :: int32
  shows "(ucast (scast (1 :: int32) * (word_of_int (sint n) :: long)) :: int32) = n"
proof -
  have "(ucast (word_of_int (sint n) :: long) :: int32) = word_of_int (sint n)"
    by (rule bit_word_eqI) (auto simp add: bit_simps)
  then show ?thesis by simp
qed

lemma readNumberToken_toBaseString_nonneg:
  assumes base: "getBase pf m = Inr base" and b2: "2 \<le> sint base" and b36: "sint base \<le> 36"
    and n: "0 \<le> sint n"
  shows "\<exists>s. toBaseString base n = Inr s \<and>
           readNumberToken_word pf s m =
             Ok (brk m) (m\<lparr>heap := (heap m)(brk m := NumberToken (INTEGER_TYPE n)),
                           brk := Suc (brk m)\<rparr>)"
proof -
  from toBaseString_nonneg [OF b2 b36 n] obtain d ds where
    s: "toBaseString base n = Inr (d # ds)" and d: "plain_digit base d"
    and ds: "\<forall>c\<in>set ds. plain_digit base c" and v: "digits_value base 0 (d # ds) = sint n"
    by blast
  have all: "\<forall>c\<in>set (d # ds). isBaseChar c base \<noteq> None"
    using d ds by (simp add: plain_digit_def)
  have lt: "sint n < 2 ^ 31"
    using sint_lt [of n] by simp
  have "toBaseInteger_loop (d # ds) base (word_of_int 0) m =
          Ok (word_of_int (digits_value base 0 (d # ds))) m"
    using lt by (intro toBaseInteger_loop_value b2 b36 all) (simp_all only: v order_refl)
  then have loop: "toBaseInteger_loop (d # ds) base 0 m = Ok (word_of_int (sint n)) m"
    by (simp only: v word_of_int_0)
  have range: "sint (word_of_int (sint n) :: long) = sint n"
    using n lt by (intro sint_long_of_int) simp_all
  have tbi: "toBaseInteger (d # ds) base m = Ok (word_of_int (sint n)) m"
    unfolding toBaseInteger_def and_then_def loop res.case length_base_chars range
      INT_MAX_def INT_MIN_def
    using b2 b36 n lt by simp
  have "readNumberToken_word pf (d # ds) m =
          Ok (brk m) (m\<lparr>heap := (heap m)(brk m := NumberToken (INTEGER_TYPE n)),
                        brk := Suc (brk m)\<rparr>)"
    by (simp only: readNumberToken_digits [OF base d ds] tbi res.case ucast_long_of_sint
        make_shared_def prod.case)
  with s show ?thesis by blast
qed

text \<open>
  Claim C5 says that parsing \<^verbatim>\<open>toBaseString(b, n)\<close> under base \<open>b\<close> yields \<open>n\<close> for
  every \<^verbatim>\<open>int\<close> \<open>n\<close>. \<^verbatim>\<open>toBaseString\<close> starts the string of a negative number with
  the sign and then puts each digit in front of it, so the sign ends up last (in base 16,
  \<open>-5\<close> is printed as \<^verbatim>\<open>5-\<close>). For every base from 2 to 36 and every negative \<open>n\<close>
  above the least \<^verbatim>\<open>int\<close>, the number parser under that base rejects the string
  \<^verbatim>\<open>toBaseString\<close> makes of \<open>n\<close> with \<^verbatim>\<open>Not a number\<close>.
\<close>

theorem toBaseString_negative_not_parsed:
  assumes "getBase pf m = Inr base" and "2 \<le> sint base" and "sint base \<le> 36"
    and "INT_MIN < sint n" and "sint n < 0"
  shows "\<exists>s. toBaseString base n = Inr s \<and>
           readNumberToken_word pf s m = Err (m\<lparr>lastError := State False ''Not a number''\<rparr>)"
  using toBaseString_negative [OF assms(2,3,5,4)] readNumberToken_trailing_minus [OF assms(1)]
  by blast

theorem toBaseString_negative_not_parsed_witness:
  "getBase example_platform (snd (defineVariable_int ''BASE'' 16 initial)) = Inr 16 \<and>
   2 \<le> sint (16 :: int32) \<and> sint (16 :: int32) \<le> 36 \<and>
   INT_MIN < sint (- 5 :: int32) \<and> sint (- 5 :: int32) < 0 \<and>
   toBaseString 16 (- 5) = Inr ''5-'' \<and>
   readNumberToken_word example_platform ''5-'' (snd (defineVariable_int ''BASE'' 16 initial)) =
     Err ((snd (defineVariable_int ''BASE'' 16 initial))\<lparr>lastError := State False ''Not a number''\<rparr>)"
proof -
  have h: "getBase example_platform (snd (defineVariable_int ''BASE'' 16 initial)) = Inr 16"
    "2 \<le> sint (16 :: int32)" "sint (16 :: int32) \<le> 36"
    "INT_MIN < sint (- 5 :: int32)" "sint (- 5 :: int32) < 0"
    by (simp_all add: run_defs INT_MIN_def)
  have s: "toBaseString 16 (- 5) = Inr ''5-''"
    by (simp add: toBaseString_def base_chars_def)
  from toBaseString_negative_not_parsed [OF h] s h show ?thesis
    by simp
qed

subsection \<open>MOD by zero\<close>

text \<open>
  Claim C6 says that MOD on two integers with a zero divisor reports an error instead of
  crashing. \<^verbatim>\<open>ModBuiltin::exec\<close> hands the operands to \<^verbatim>\<open>Number::mod\<close> unchecked,
  and \<^verbatim>\<open>Mod::exec\<close> starts with \<^verbatim>\<open>assert(b != T(0))\<close>: whenever the two top tokens are
  integers and the top one is 0, the assertion fails and no \<^verbatim>\<open>State\<close> is returned.
\<close>

theorem ModBuiltin_exec_zero:
  assumes "tokens m = ts @ [a, b]" and "heap m a = NumberToken (INTEGER_TYPE x)"
    and "heap m b = NumberToken (INTEGER_TYPE 0)"
  shows "ModBuiltin_exec pf m = Halt AssertFailed"
  using assms
  by (simp add: ModBuiltin_exec_def popNumbers_def popNumber_def popToken_def tokenToNumber_def
      and_then_def debug_token_def Let_def Number_mod_def Mod_exec_int_def butlast_append)

theorem ModBuiltin_exec_zero_witness:
  "tokens (pushInteger 0 (pushInteger 7 initial) :: unit machine) = [] @ [0, 1] \<and>
   heap (pushInteger 0 (pushInteger 7 initial) :: unit machine) 0 = NumberToken (INTEGER_TYPE 7) \<and>
   heap (pushInteger 0 (pushInteger 7 initial) :: unit machine) 1 = NumberToken (INTEGER_TYPE 0) \<and>
   ModBuiltin_exec example_platform (pushInteger 0 (pushInteger 7 initial)) = Halt AssertFailed"
  using ModBuiltin_exec_zero
    [of "pushInteger 0 (pushInteger 7 initial) :: unit machine" "[]" 0 1 7 example_platform]
  by (simp add: run_defs)

subsection \<open>DUP and OVER on a reference\<close>

lemma DupBuiltin_exec_same_token:
  assumes "tokens m \<noteq> []" and "\<not> debug m"
  shows "DupBuiltin_exec m = Ok () (m\<lparr>tokens := tokens m @ [last (tokens m)]\<rparr>)"
  using assms by (simp add: DupBuiltin_exec_def pushDupToken_def isImmutable_def and_then_def)

lemma OverBuiltin_exec_same_token:
  assumes "2 \<le> length (tokens m)" and "\<not> debug m"
  shows "OverBuiltin_exec m =
           Ok () (m\<lparr>tokens := tokens m @ [tokens m ! (length (tokens m) - 2)]\<rparr>)"
  using assms
  by (simp add: OverBuiltin_exec_def pushDupToken_def isImmutable_def and_then_def Let_def)

text \<open>\<^verbatim>\<open>1+\<close> does not shift a reference in place: it pushes a new reference.\<close>

lemma Plus1Builtin_exec_new_reference:
  "\<exists>m'. Plus1Builtin_exec pf (ref_example :: 'd machine) = Ok () m' \<and>
         tokens m' = [3] \<and> heap m' 3 = VariableRef 1 2 \<and> heap m' 2 = VariableRef 1 1"
  by (simp add: ref_example_def Plus1Builtin_exec_def isVarRef_def indexVar_def run_defs)

text \<open>
  Claim C7 says that DUP and OVER push a new reference object, so that shifting the offset
  of one copy in place leaves the other alone. \<^verbatim>\<open>pushDupToken\<close> copies a token only when
  \<^verbatim>\<open>isImmutable\<close> is false, and no class overrides \<^verbatim>\<open>Token::isImmutable\<close>, which returns
  true: DUP and OVER push the pointer they found. With the reference at address 2 on the
  stack, DUP leaves the address 2 twice and makes no object; \<^verbatim>\<open>inc\<close> on the top one
  shifts the offset under both slots from 1 to 2. OVER behaves the same way.
\<close>

theorem DupBuiltin_exec_aliases_reference:
  "tokens (ref_example :: 'd machine) = [2] \<and>
   heap (ref_example :: 'd machine) 2 = VariableRef 1 1 \<and>
   (\<exists>m1 m2. DupBuiltin_exec (ref_example :: 'd machine) = Ok () m1 \<and>
       tokens m1 = [2, 2] \<and> brk m1 = brk (ref_example :: 'd machine) \<and>
       inc pf (last (tokens m1)) (INTEGER_TYPE 1) m1 = Ok () m2 \<and>
       map (heap m2) (tokens m2) = [VariableRef 1 2, VariableRef 1 2]) \<and>
   (\<exists>m1 m2. OverBuiltin_exec (pushInteger 7 (ref_example :: 'd machine)) = Ok () m1 \<and>
       tokens m1 = [2, 3, 2] \<and> brk m1 = brk (pushInteger 7 (ref_example :: 'd machine)) \<and>
       inc pf (last (tokens m1)) (INTEGER_TYPE 1) m1 = Ok () m2 \<and>
       map (heap m2) (tokens m2) =
         [VariableRef 1 2, NumberToken (INTEGER_TYPE 7), VariableRef 1 2])"
  by (simp add: ref_example_def DupBuiltin_exec_def OverBuiltin_exec_def pushDupToken_def
      isImmutable_def indexVar_def inc_def run_defs)

subsection \<open>DO ... LOOP\<close>

text \<open>The index does not wrap on its way from the start to the limit.\<close>

lemma sint_index:
  fixes start limit :: int32
  assumes "sint start + int k \<le> sint limit"
  shows "sint (start + of_nat k) = sint start + int k"
proof -
  have lo: "- (2 ^ 31) \<le> sint start + int k"
    using sint_ge [of start] by simp
  have hi: "sint start + int k < 2 ^ 31"
    using sint_lt [of limit] assms by simp
  have "start + of_nat k = (word_of_int (sint start + int k) :: int32)"
    by simp
  then have "sint (start + of_nat k) = signed_take_bit 31 (sint start + int k)"
    by (simp only: sint_sbintrunc') simp
  then show ?thesis
    using lo hi by (simp add: signed_take_bit_int_eq_self)
qed

lemma cmp_in_pass:
  assumes "in_pass self s e body rs start limit k m"
  shows "cmp pf e s m =
           Ok (if sint limit > sint (start + of_nat k) then 1
               else if sint limit < sint (start + of_nat k) then - 1 else 0) m"
  using assms by (simp add: in_pass_def cmp_def Number_cmp_def)

text \<open>
  The inner loop of \<^verbatim>\<open>exec1\<close> executes the body as specified, and the
  \<^verbatim>\<open>for (;;)\<close> makes the specified passes.
\<close>

lemma LOOP_spec_body_DoBuiltin_body:
  assumes "LOOP_spec_body ex (in_pass self s e body rs start limit k) ts m = Some m2"
  shows "DoBuiltin_body ex self ts m = Some (Ok () m2) \<and>
         in_pass self s e body rs start limit k m \<and>
         in_pass self s e body rs start limit k m2"
  using assms
proof (induction ts arbitrary: m)
  case Nil
  then show ?case by (simp split: if_splits)
next
  case (Cons token ts)
  from Cons.prems have P: "in_pass self s e body rs start limit k m"
    by (simp split: if_splits)
  with Cons.prems obtain m1 where
    ex: "ex token m = Some (Ok () m1)"
    and rest: "LOOP_spec_body ex (in_pass self s e body rs start limit k) ts m1 = Some m2"
    by (auto split: option.splits res.splits)
  from Cons.IH [OF rest] have
    b: "DoBuiltin_body ex self ts m1 = Some (Ok () m2)"
    and P1: "in_pass self s e body rs start limit k m1"
    and P2: "in_pass self s e body rs start limit k m2"
    by simp_all
  from P1 have lv: "\<not> leave (getValue (heap m1 self))"
    by (simp add: in_pass_def)
  from ex lv b P P2 show ?case by simp
qed

lemma LOOP_spec_passes_DoBuiltin_loop:
  assumes "LOOP_spec_passes ex self s e body rs start limit d k m = Some m'"
    and "in_pass self s e body rs start limit k m"
    and "sint start + int k + int d = sint limit"
  shows "DoBuiltin_loop pf ex self True (INTEGER_TYPE 1) s e m = Some (Ok () m') \<and>
         in_pass self s e body rs start limit (k + d) m'"
  using assms
proof (induction d arbitrary: k m)
  case 0
  then have "sint (start + of_nat k) = sint limit"
    using sint_index [of start k limit] by simp
  with 0 show ?case
    using cmp_in_pass [OF "0.prems"(2), of pf]
    by (subst DoBuiltin_loop.simps) simp
next
  case (Suc d)
  then have lt: "sint start + int k < sint limit" by simp
  then have sk: "sint (start + of_nat k) = sint start + int k"
    using sint_index [of start k limit] by simp
  let ?next = "\<lambda>m1. m1\<lparr>heap := (heap m1)(s := NumberToken (INTEGER_TYPE (start + of_nat (Suc k))))\<rparr>"
  from Suc.prems(1) obtain m1 where
    sb: "LOOP_spec_body ex (in_pass self s e body rs start limit k) body m = Some m1"
    and rest: "LOOP_spec_passes ex self s e body rs start limit d (Suc k) (?next m1) = Some m'"
    by (auto split: option.splits)
  from LOOP_spec_body_DoBuiltin_body [OF sb] have
    b: "DoBuiltin_body ex self body m = Some (Ok () m1)"
    and inv1: "in_pass self s e body rs start limit k m1"
    by simp_all
  have toks: "do_tokens (getValue (heap m self)) = body"
    using Suc.prems(2) by (simp add: in_pass_def)
  have fl: "\<not> leave (getValue (heap m1 self))" "\<not> incToken (getValue (heap m1 self))"
    using inv1 by (simp_all add: in_pass_def)
  from sk lt have "start + of_nat k \<noteq> limit" by auto
  with inv1 have se: "s \<noteq> e" by (auto simp: in_pass_def)
  from inv1 have sself: "s \<noteq> self" by (auto simp: in_pass_def)
  have i: "inc pf s (INTEGER_TYPE 1) m1 = Ok () (?next m1)"
    using inv1 by (simp add: in_pass_def inc_def Number_inc_def add_ac)
  have inv2: "in_pass self s e body rs start limit (Suc k) (?next m1)"
    using inv1 se sself by (simp add: in_pass_def)
  have d: "sint start + int (Suc k) + int d = sint limit"
    using Suc.prems(3) by simp
  from Suc.IH [OF rest inv2 d] have
    IH: "DoBuiltin_loop pf ex self True (INTEGER_TYPE 1) s e (?next m1) = Some (Ok () m')"
    and inv': "in_pass self s e body rs start limit (k + Suc d) m'"
    by simp_all
  have "DoBuiltin_loop pf ex self True (INTEGER_TYPE 1) s e m = Some (Ok () m')"
    using cmp_in_pass [OF Suc.prems(2), of pf] lt sk IH
    by (subst DoBuiltin_loop.simps) (simp add: toks b fl i)
  with inv' show ?case by simp
qed



text \<open>
  \<^verbatim>\<open>DoBuiltin::exec\<close> from the parameter stack: it enters the first pass as specified and
  ends where the specified passes end, in the state of the pass after the last.
\<close>

lemma DoBuiltin_exec_passes:
  fixes start limit :: int32
  assumes self: "heap m self = Builtin (Control DO_BUILTIN) (DoTokens body False lv)"
    and stack: "tokens m = ts @ [e, s0]"
    and s0: "heap m s0 = NumberToken (INTEGER_TYPE start)"
    and e: "heap m e = NumberToken (INTEGER_TYPE limit)"
    and alloc: "self < brk m \<and> e < brk m"
    and lt: "sint start < sint limit"
    and run: "LOOP_spec_passes ex self (brk m) e body (retTokens m) start limit
                (nat (sint limit - sint start)) 0 (LOOP_spec_entry self s0 e body ts start m) =
              Some m'"
  shows "DoBuiltin_exec pf ex self m = Some (Ok () (m'\<lparr>retTokens := retTokens m\<rparr>)) \<and>
         in_pass self (brk m) e body (retTokens m) start limit (nat (sint limit - sint start)) m'"
proof -
  let ?s = "brk m"
  let ?rs = "retTokens m"
  let ?n = "nat (sint limit - sint start)"
  let ?m0 = "LOOP_spec_entry self s0 e body ts start m"
  from alloc have ne: "?s \<noteq> self" "?s \<noteq> e" by simp_all
  from self e have eself: "e \<noteq> self" by auto
  let ?m1 = "(if debug m then debug_token ''Pop: '' e (debug_token ''Pop: '' s0 m) else m)
                  \<lparr>tokens := ts\<rparr>"
  have pop: "popTokens m = Ok (e, s0) ?m1"
    using stack by (simp add: popTokens_def popToken_def and_then_def debug_token_def Let_def
        butlast_append)
  have h1: "heap ?m1 = heap m" "brk ?m1 = brk m" "retTokens ?m1 = retTokens m"
    by (simp_all add: debug_token_def)
  let ?d = "?m1\<lparr>heap := (heap m)(?s := NumberToken (INTEGER_TYPE start)), brk := Suc ?s\<rparr>"
  let ?m2 = "?d\<lparr>retTokens := retTokens ?d @ [?s, e]\<rparr>"
  have dp: "dup s0 ?m1 = Ok ?s ?d"
    using s0 by (simp add: dup_def make_shared_def h1)
  have c: "cmp pf e ?s ?m2 = Ok 1 ?m2"
    using e lt ne by (simp add: cmp_def Number_cmp_def)
  have m0: "clear_leave self ?m2 = ?m0"
    using self ne by (simp add: clear_leave_def LOOP_spec_entry_def Let_def debug_token_def)
  have inv0: "in_pass self ?s e body ?rs start limit 0 ?m0"
    using self e ne eself by (simp add: in_pass_def LOOP_spec_entry_def Let_def debug_token_def)
  have d: "sint start + int 0 + int ?n = sint limit"
    using lt by simp
  from LOOP_spec_passes_DoBuiltin_loop [OF run inv0 d, of pf] have
    loop: "DoBuiltin_loop pf ex self True (INTEGER_TYPE 1) ?s e ?m0 = Some (Ok () m')"
    and inv': "in_pass self ?s e body ?rs start limit ?n m'"
    by simp_all
  have e1: "DoBuiltin_exec1 pf ex self ?s e ?m2 = Some (Ok () m')"
    by (simp only: DoBuiltin_exec1_def c res.case m0) (simp add: loop)
  from inv' have ret': "butlast (butlast (retTokens m')) = ?rs"
    by (simp add: in_pass_def butlast_append)
  have "DoBuiltin_exec pf ex self m = Some (Ok () (m'\<lparr>retTokens := ?rs\<rparr>))"
    unfolding DoBuiltin_exec_def
    by (simp only: pop res.case prod.case dp e1 option.case ret')
  with inv' show ?thesis by simp
qed

text \<open>The equations that run the example.\<close>

lemmas loop_defs =
  loop_example_def initial_def loop_example_execToken_def IBuiltin_exec_def
  PrintBuiltin_exec_def popToken_def pushToken_def debug_token_def State_error_def
  LOOP_spec_entry_def in_pass_def



text \<open>
  What \<^verbatim>\<open>I\<close> pushes is the index object itself, not a copy of it: the three slots that
  \<^verbatim>\<open>3 0 DO I LOOP\<close> leaves on the parameter stack are that one object, which holds 3
  when the loop has ended.
\<close>

lemma DoBuiltin_exec_I_example:
  "DoBuiltin_exec example_platform loop_example_execToken 0 (loop_example [1]) =
     Some (Ok () ((loop_example [1])
       \<lparr>heap := (heap (loop_example [1]))(5 := NumberToken (INTEGER_TYPE 3)),
         brk := 6, tokens := [5, 5, 5]\<rparr>))"
proof -
  let ?m = "loop_example [1]"
  let ?m' = "?m\<lparr>heap := (heap ?m)(5 := NumberToken (INTEGER_TYPE 3)), brk := 6,
                tokens := [5, 5, 5], retTokens := [5, 3]\<rparr>"
  have h: "heap ?m 0 = Builtin (Control DO_BUILTIN) (DoTokens [1] False False)"
    "tokens ?m = [] @ [3, 4]"
    "heap ?m 4 = NumberToken (INTEGER_TYPE 0)"
    "heap ?m 3 = NumberToken (INTEGER_TYPE 3)"
    "0 < brk ?m \<and> 3 < brk ?m"
    "sint (0 :: int32) < sint (3 :: int32)"
    by (simp_all add: loop_example_def initial_def)
  have b: "brk ?m = 5" "retTokens ?m = []"
    by (simp_all add: loop_example_def initial_def)
  have n: "nat (sint (3 :: int32) - sint (0 :: int32)) = 3"
    by simp
  have run: "LOOP_spec_passes loop_example_execToken 0 (brk ?m) 3 [1] (retTokens ?m) 0 3
               (nat (sint (3 :: int32) - sint (0 :: int32))) 0
               (LOOP_spec_entry 0 4 3 [1] [] 0 ?m) = Some ?m'"
    unfolding n b
    by (simp add: eval_nat_numeral loop_defs Let_def fun_upd_twist)
  from DoBuiltin_exec_passes [OF h(1) h(2) h(3) h(4) h(5) h(6) run, of example_platform]
  have "DoBuiltin_exec example_platform loop_example_execToken 0 ?m =
          Some (Ok () (?m'\<lparr>retTokens := retTokens ?m\<rparr>))"
    by (rule conjunct1)
  then show ?thesis
    by (simp add: loop_example_def initial_def)
qed

subsection \<open>ROLL\<close>

lemma Roll_loop_out_of_range: "n1 < length ts \<Longrightarrow> Roll_loop n1 ts = Inl OutOfRange"
proof (induction n1 ts rule: Roll_loop.induct)
  case (1 n1 ts)
  show ?case
  proof (cases "n1 + 1 < length ts")
    case True
    with 1 show ?thesis by (subst Roll_loop.simps) simp
  next
    case False
    with "1.prems" show ?thesis by (subst Roll_loop.simps) simp
  qed
qed

text \<open>
  Claim C9 says that ROLL with \<open>1 \<le> n \<le> depth\<close> reads and writes stack slots inside the
  stack only. The loop of \<^verbatim>\<open>RollBuiltin::exec\<close> runs \<^verbatim>\<open>n1\<close> up to \<^verbatim>\<open>nt - 1\<close> and
  reads \<^verbatim>\<open>tokens_[n1 + 1]\<close>, so its last round reads the slot \<^verbatim>\<open>nt\<close> of a vector of
  \<^verbatim>\<open>nt\<close> elements: for every such \<open>n\<close> the run ends in an access out of range.
\<close>

theorem RollBuiltin_exec_out_of_range:
  assumes "tokens m = ts @ [a]" and "heap m a = NumberToken (INTEGER_TYPE i)"
    and "1 \<le> sint i" and "sint i \<le> int (length ts)"
  shows "RollBuiltin_exec pf m = Halt OutOfRange"
proof -
  let ?k = "nat (int (length ts) - sint i)"
  have k: "?k < length ts" using assms(3,4) by linarith
  have "?k mod 2 ^ 32 \<le> ?k" by simp
  with k have "?k mod 2 ^ 32 < length ts" by linarith
  then have r: "Roll_loop (?k mod 2 ^ 32) ts = Inl OutOfRange"
    by (rule Roll_loop_out_of_range)
  show ?thesis
    using assms k r
    by (simp add: RollBuiltin_exec_def popNumber_def popToken_def tokenToNumber_def and_then_def
        debug_token_def Let_def)
qed

theorem RollBuiltin_exec_out_of_range_witness:
  "tokens (pushInteger 2 (pushInteger 30 (pushInteger 20 (pushInteger 10 initial))) :: unit machine)
     = [0, 1, 2] @ [3] \<and>
   heap (pushInteger 2 (pushInteger 30 (pushInteger 20 (pushInteger 10 initial))) :: unit machine) 3
     = NumberToken (INTEGER_TYPE 2) \<and>
   1 \<le> sint (2 :: int32) \<and> sint (2 :: int32) \<le> int (length [0 :: addr, 1, 2]) \<and>
   RollBuiltin_exec example_platform
     (pushInteger 2 (pushInteger 30 (pushInteger 20 (pushInteger 10 initial)))) = Halt OutOfRange"
  using RollBuiltin_exec_out_of_range
    [of "pushInteger 2 (pushInteger 30 (pushInteger 20 (pushInteger 10 initial))) :: unit machine"
      "[0, 1, 2]" 3 2 example_platform]
  by (simp add: run_defs)

subsection \<open>Printing from an empty stack\<close>

text \<open>
  Claim C10. When \<^verbatim>\<open>.\<close> runs on an empty parameter stack, it writes \<^verbatim>\<open>0\<close> and a
  newline to standard output and returns the error \<^verbatim>\<open>STACK EMPTY\<close>; nothing else
  changes, so the parameter stack is still empty.
\<close>

theorem PrintBuiltin_exec_empty:
  assumes "tokens m = []"
  shows "\<exists>m'. PrintBuiltin_exec m = Err m' \<and>
           m' = m\<lparr>lastError := State False ''STACK EMPTY'',
                  out := out m @ [Chars ''0'', Chars endl]\<rparr> \<and>
           lastError m' = State False ''STACK EMPTY'' \<and>
           out m' = out m @ [Chars ''0'', Chars endl] \<and>
           tokens m' = []"
  using assms by (simp add: PrintBuiltin_exec_def popToken_def State_error_def)

theorem PrintBuiltin_exec_empty_witness:
  "tokens (initial :: unit machine) = [] \<and>
   PrintBuiltin_exec (initial :: unit machine) =
     Err (initial\<lparr>lastError := State False ''STACK EMPTY'',
                 out := [Chars ''0'', Chars [CHR 0x0A]]\<rparr>)"
  using PrintBuiltin_exec_empty [of "initial :: unit machine"]
  by (simp add: initial_def endl_def)

end
